theory Spec2Isabelle
  imports Complex_Main "HOL-Library.Char_ord"
begin

section \<open>Values and errors of the Python program\<close>

text \<open>
  The module \<^verbatim>\<open>wavelink/ext/spotify/__init__.py\<close> works on decoded JSON payloads.
  A payload is a Python value built from \<^verbatim>\<open>None\<close>, booleans, integers, strings, lists and
  dictionaries. A dictionary is given by its items in insertion order; its keys are
  distinct, as those of a Python \<^verbatim>\<open>dict\<close> are. JSON numbers with a fraction are not
  part of the model.
\<close>

datatype json =
    JNull
  | JBool bool
  | JNum int
  | JStr string
  | JArr "json list"
  | JObj "(string \<times> json) list"

text \<open>
  Every exception the module can raise is a value. \<^verbatim>\<open>SpotifyRequestError\<close> carries the
  status and the reason of the response, as the class does. \<open>TransportError\<close> stands for
  the exceptions of the HTTP library when no response arrives.
\<close>

datatype error =
    KeyError string
  | TypeError
  | AttributeError
  | IndexError
  | ValueError
  | RuntimeError
  | OverflowError
  | RecursionError
  | NoTracksError
  | OtherError
  | TransportError
  | StopAsyncIteration
  | SpotifyRequestError int "string option"

definition bind_e :: "error + 'a \<Rightarrow> ('a \<Rightarrow> error + 'b) \<Rightarrow> error + 'b" where
  "bind_e m f = (case m of Inl e \<Rightarrow> Inl e | Inr v \<Rightarrow> f v)"

fun map_e :: "('a \<Rightarrow> error + 'b) \<Rightarrow> 'a list \<Rightarrow> error + 'b list" where
  "map_e f [] = Inr []"
| "map_e f (x # xs) =
     (case f x of
        Inl e \<Rightarrow> Inl e
      | Inr y \<Rightarrow> (case map_e f xs of Inl e \<Rightarrow> Inl e | Inr ys \<Rightarrow> Inr (y # ys)))"

text \<open>\<^verbatim>\<open>d[k]\<close> with a string key: only a dictionary supports it.\<close>

fun subscript :: "json \<Rightarrow> string \<Rightarrow> error + json" where
  "subscript (JObj kvs) k = (case map_of kvs k of None \<Rightarrow> Inl (KeyError k) | Some v \<Rightarrow> Inr v)"
| "subscript _ k = Inl TypeError"

text \<open>\<^verbatim>\<open>d.get(k)\<close>: a method of dictionaries only; a missing key gives \<^verbatim>\<open>None\<close>.\<close>

fun dict_get :: "json \<Rightarrow> string \<Rightarrow> error + json" where
  "dict_get (JObj kvs) k = (case map_of kvs k of None \<Rightarrow> Inr JNull | Some v \<Rightarrow> Inr v)"
| "dict_get _ k = Inl AttributeError"

text \<open>
  \<^verbatim>\<open>for x in v\<close>: a list gives its elements, a dictionary its keys, a string its
  characters; nothing else is iterable.
\<close>

fun py_iter :: "json \<Rightarrow> error + json list" where
  "py_iter (JArr xs) = Inr xs"
| "py_iter (JObj kvs) = Inr (map (\<lambda>kv. JStr (fst kv)) kvs)"
| "py_iter (JStr s) = Inr (map (\<lambda>c. JStr [c]) s)"
| "py_iter _ = Inl TypeError"

text \<open>Truth value of a payload, as \<^verbatim>\<open>not v\<close> and \<^verbatim>\<open>if v\<close> read it.\<close>

fun truthy :: "json \<Rightarrow> bool" where
  "truthy JNull = False"
| "truthy (JBool b) = b"
| "truthy (JNum n) = (n \<noteq> 0)"
| "truthy (JStr s) = (s \<noteq> [])"
| "truthy (JArr xs) = (xs \<noteq> [])"
| "truthy (JObj kvs) = (kvs \<noteq> [])"

text \<open>
  \<^verbatim>\<open>a == b\<close> on payloads: a boolean equals the integer 0 or 1, lists are compared
  elementwise, dictionaries as sets of items.
\<close>

fun py_eq :: "json \<Rightarrow> json \<Rightarrow> bool" where
  "py_eq JNull JNull = True"
| "py_eq (JBool a) (JBool b) = (a = b)"
| "py_eq (JBool a) (JNum n) = ((if a then 1 else 0) = n)"
| "py_eq (JNum n) (JBool a) = (n = (if a then 1 else 0))"
| "py_eq (JNum a) (JNum b) = (a = b)"
| "py_eq (JStr a) (JStr b) = (a = b)"
| "py_eq (JArr xs) (JArr ys) = list_all2 py_eq xs ys"
| "py_eq (JObj a) (JObj b) =
     (length a = length b \<and> (\<forall>(k, v) \<in> set a. \<exists>(k', w) \<in> set b. k = k' \<and> py_eq v w))"
| "py_eq _ _ = False"

section \<open>SpotifyTrack\<close>

text \<open>
  The attributes that \<^verbatim>\<open>SpotifyTrack.__init__\<close> sets. The fields \<open>id\<close> and \<open>length\<close>
  of the class are \<open>track_id\<close> and \<open>track_length\<close> here. No attribute is converted or
  checked by the constructor, so each holds the payload's value as it came.
\<close>

record SpotifyTrack =
  raw :: json
  album :: json
  images :: "json list"
  artists :: "json list"
  name :: json
  title :: json
  uri :: json
  track_id :: json
  track_length :: json
  duration :: json
  isrc :: json

text \<open>
  \<^verbatim>\<open>SpotifyTrack.__init__\<close>: the lookups happen in the order of the source, and the
  first one that fails raises.
\<close>

definition SpotifyTrack_init :: "json \<Rightarrow> error + SpotifyTrack" where
  "SpotifyTrack_init data =
     bind_e (subscript data ''album'') (\<lambda>alb.
     bind_e (subscript alb ''name'') (\<lambda>album_name.
     bind_e (subscript alb ''images'') (\<lambda>imgs.
     bind_e (py_iter imgs) (\<lambda>img_list.
     bind_e (map_e (\<lambda>i. subscript i ''url'') img_list) (\<lambda>image_urls.
     bind_e (subscript data ''artists'') (\<lambda>arts.
     bind_e (py_iter arts) (\<lambda>art_list.
     bind_e (map_e (\<lambda>a. subscript a ''name'') art_list) (\<lambda>artist_names.
     bind_e (subscript data ''name'') (\<lambda>nm.
     bind_e (subscript data ''uri'') (\<lambda>u.
     bind_e (subscript data ''id'') (\<lambda>i.
     bind_e (subscript data ''duration_ms'') (\<lambda>d.
     bind_e (subscript data ''external_ids'') (\<lambda>ext.
     bind_e (dict_get ext ''isrc'') (\<lambda>code.
       Inr \<lparr> raw = data, album = album_name, images = image_urls,
             artists = artist_names, name = nm, title = nm, uri = u,
             track_id = i, track_length = d, duration = d, isrc = code \<rparr>))))))))))))))"

text \<open>\<^verbatim>\<open>SpotifyTrack.__eq__\<close>: \<^verbatim>\<open>self.id == other.id\<close>.\<close>

definition SpotifyTrack_eq :: "SpotifyTrack \<Rightarrow> SpotifyTrack \<Rightarrow> bool" where
  "SpotifyTrack_eq self other = py_eq (track_id self) (track_id other)"

text \<open>A well-formed track payload with the given id and name, used in examples.\<close>

definition sample_track :: "string \<Rightarrow> string \<Rightarrow> json" where
  "sample_track i n =
     JObj [(''album'', JObj [(''name'', JStr ''LP''),
                             (''images'', JArr [JObj [(''url'', JStr ''http://img'')]])]),
           (''artists'', JArr [JObj [(''name'', JStr ''Band'')]]),
           (''name'', JStr n),
           (''uri'', JStr (''spotify:track:'' @ i)),
           (''id'', JStr i),
           (''duration_ms'', JNum 1000),
           (''external_ids'', JObj [(''isrc'', JStr ''USX0000000001'')]),
           (''type'', JStr ''track'')]"

definition sample_built :: "string \<Rightarrow> string \<Rightarrow> SpotifyTrack" where
  "sample_built i n =
     \<lparr> raw = sample_track i n, album = JStr ''LP'', images = [JStr ''http://img''],
       artists = [JStr ''Band''], name = JStr n, title = JStr n,
       uri = JStr (''spotify:track:'' @ i), track_id = JStr i,
       track_length = JNum 1000, duration = JNum 1000, isrc = JStr ''USX0000000001'' \<rparr>"

section \<open>The URL pattern\<close>

text \<open>
  \<^verbatim>\<open>URLREGEX\<close> is a compiled regular expression, used through \<^verbatim>\<open>URLREGEX.match\<close>,
  which matches at the start of the string and need not reach its end. The pattern
  language below has what the pattern uses: literals, \<^verbatim>\<open>.\<close> (any character but a
  newline), a character class repeated with \<^verbatim>\<open>+\<close>, sequence, alternation, the greedy
  \<^verbatim>\<open>?\<close>, and groups, named or not.
\<close>

datatype rx =
    Lit string
  | Dot
  | PlusCls "char \<Rightarrow> bool"
  | Seq rx rx
  | Alt rx rx
  | Opt rx
  | Named string rx

type_synonym caps = "string \<rightharpoonup> string"

text \<open>
  \<open>rmatch r s c\<close> lists every way \<open>r\<close> matches a prefix of \<open>s\<close>, in the order in which
  Python's backtracking matcher tries them: each entry is the rest of the input and the
  groups captured so far. A greedy operator lists the longer match first.
\<close>

fun rmatch :: "rx \<Rightarrow> string \<Rightarrow> caps \<Rightarrow> (string \<times> caps) list" where
  "rmatch (Lit l) s c = (if take (length l) s = l then [(drop (length l) s, c)] else [])"
| "rmatch Dot s c = (case s of [] \<Rightarrow> [] | x # xs \<Rightarrow> if x = CHR 0x0A then [] else [(xs, c)])"
| "rmatch (PlusCls p) s c =
     map (\<lambda>k. (drop k s, c)) (rev [1 ..< Suc (length (takeWhile p s))])"
| "rmatch (Seq a b) s c = concat (map (\<lambda>(s', c'). rmatch b s' c') (rmatch a s c))"
| "rmatch (Alt a b) s c = rmatch a s c @ rmatch b s c"
| "rmatch (Opt a) s c = rmatch a s c @ [(s, c)]"
| "rmatch (Named g a) s c =
     map (\<lambda>(s', c'). (s', c'(g \<mapsto> take (length s - length s') s))) (rmatch a s c)"

text \<open>\<^verbatim>\<open>pattern.match(s)\<close>: the groups of the first way to match, or \<^verbatim>\<open>None\<close>.\<close>

definition re_match :: "rx \<Rightarrow> string \<Rightarrow> caps option" where
  "re_match r s = (case rmatch r s Map.empty of [] \<Rightarrow> None | (rest, c) # _ \<Rightarrow> Some c)"

text \<open>\<^verbatim>\<open>match[g]\<close>: the text of group \<open>g\<close>; \<^verbatim>\<open>None\<close> for a group that took no part.\<close>

definition match_group :: "caps \<Rightarrow> string \<Rightarrow> string option" where
  "match_group c g = c g"

definition alnum :: "char \<Rightarrow> bool" where
  "alnum ch \<longleftrightarrow> (CHR ''a'' \<le> ch \<and> ch \<le> CHR ''z'') \<or> (CHR ''A'' \<le> ch \<and> ch \<le> CHR ''Z'')
                \<or> (CHR ''0'' \<le> ch \<and> ch \<le> CHR ''9'')"

definition digit :: "char \<Rightarrow> bool" where
  "digit ch \<longleftrightarrow> CHR ''0'' \<le> ch \<and> ch \<le> CHR ''9''"

text \<open>
  \<^verbatim>\<open>(https?://open.)?(spotify)(.com/|:)(?P<type>album|playlist|track|artist)([/:])\<close>
  \<^verbatim>\<open>(?P<id>[a-zA-Z0-9]+)(\?si=[a-zA-Z0-9]+)?(&dl_branch=[0-9]+)?\<close>
\<close>

definition URLREGEX :: rx where
  "URLREGEX =
     Seq (Opt (Seq (Lit ''http'') (Seq (Opt (Lit ''s'')) (Seq (Lit ''://open'') Dot))))
    (Seq (Lit ''spotify'')
    (Seq (Alt (Seq Dot (Lit ''com/'')) (Lit '':''))
    (Seq (Named ''type''
            (Alt (Lit ''album'') (Alt (Lit ''playlist'') (Alt (Lit ''track'') (Lit ''artist'')))))
    (Seq (Alt (Lit ''/'') (Lit '':''))
    (Seq (Named ''id'' (PlusCls alnum))
    (Seq (Opt (Seq (Lit ''?si='') (PlusCls alnum)))
         (Opt (Seq (Lit ''&dl_branch='') (PlusCls digit)))))))))"

section \<open>The language of the pattern, in words\<close>

text \<open>
  What the specification says a catalog URL is: an optional scheme and host, the word
  \<^verbatim>\<open>spotify\<close>, a domain part or a colon, one of four entity names, a separator, and an
  alphanumeric id that ends where the first other character stands. \<open>catalog_url s e i\<close>
  says that \<open>s\<close> starts with such a URL, with entity name \<open>e\<close> and id \<open>i\<close>. The pieces of
  \<^verbatim>\<open>URLREGEX\<close> are named for the proofs.
\<close>

definition host_prefix :: "string \<Rightarrow> bool" where
  "host_prefix pre \<longleftrightarrow>
     pre = [] \<or> (\<exists>ch. ch \<noteq> CHR 0x0A \<and> (pre = ''http://open'' @ [ch] \<or> pre = ''https://open'' @ [ch]))"

definition domain_sep :: "string \<Rightarrow> bool" where
  "domain_sep mid \<longleftrightarrow> mid = '':'' \<or> (\<exists>ch. ch \<noteq> CHR 0x0A \<and> mid = ch # ''com/'')"

definition catalog_url :: "string \<Rightarrow> string \<Rightarrow> string \<Rightarrow> bool" where
  "catalog_url s ename ident \<longleftrightarrow>
     (\<exists>pre mid sep rest.
        s = pre @ ''spotify'' @ mid @ ename @ [sep] @ ident @ rest
        \<and> host_prefix pre \<and> domain_sep mid
        \<and> ename \<in> set [''album'', ''playlist'', ''track'', ''artist'']
        \<and> (sep = CHR ''/'' \<or> sep = CHR '':'')
        \<and> ident \<noteq> [] \<and> list_all alnum ident
        \<and> (case rest of [] \<Rightarrow> True | r # _ \<Rightarrow> \<not> alnum r))"

fun no_named :: "rx \<Rightarrow> bool" where
  "no_named (Named g a) = False"
| "no_named (Seq a b) = (no_named a \<and> no_named b)"
| "no_named (Alt a b) = (no_named a \<and> no_named b)"
| "no_named (Opt a) = no_named a"
| "no_named _ = True"

definition ID_TAIL :: rx where
  "ID_TAIL = Seq (Named ''id'' (PlusCls alnum))
    (Seq (Opt (Seq (Lit ''?si='') (PlusCls alnum)))
         (Opt (Seq (Lit ''&dl_branch='') (PlusCls digit))))"

definition HOST :: rx where
  "HOST = Opt (Seq (Lit ''http'') (Seq (Opt (Lit ''s'')) (Seq (Lit ''://open'') Dot)))"

definition DOMSEP :: rx where
  "DOMSEP = Alt (Seq Dot (Lit ''com/'')) (Lit '':'')"

definition ENTITY :: rx where
  "ENTITY = Named ''type''
            (Alt (Lit ''album'') (Alt (Lit ''playlist'') (Alt (Lit ''track'') (Lit ''artist''))))"

definition IDSEP :: rx where
  "IDSEP = Alt (Lit ''/'') (Lit '':'')"

section \<open>decode_url\<close>

datatype SpotifySearchType = track | album_type | playlist | unusable

text \<open>\<^verbatim>\<open>SpotifySearchType[name]\<close>: the member of that name, or a \<^verbatim>\<open>KeyError\<close>.\<close>

definition SpotifySearchType_of :: "string \<Rightarrow> error + SpotifySearchType" where
  "SpotifySearchType_of n =
     (if n = ''track'' then Inr track
      else if n = ''album'' then Inr album_type
      else if n = ''playlist'' then Inr playlist
      else if n = ''unusable'' then Inr unusable
      else Inl (KeyError n))"

text \<open>\<^verbatim>\<open>member.name\<close>.\<close>

fun type_name :: "SpotifySearchType \<Rightarrow> string" where
  "type_name track = ''track''"
| "type_name album_type = ''album''"
| "type_name playlist = ''playlist''"
| "type_name unusable = ''unusable''"

record Identifier =
  ident_type :: SpotifySearchType
  ident_id :: string

text \<open>
  \<^verbatim>\<open>decode_url\<close>. Both named groups take part in every match of the pattern, so
  \<^verbatim>\<open>match['type']\<close> and \<^verbatim>\<open>match['id']\<close> are strings; the model keeps the lookup and
  returns \<open>None\<close> only where there is no match.
\<close>

definition decode_url :: "string \<Rightarrow> Identifier option" where
  "decode_url url =
     (case re_match URLREGEX url of
        None \<Rightarrow> None
      | Some m \<Rightarrow>
          (let type_v = (case SpotifySearchType_of (the (match_group m ''type'')) of
                           Inl e \<Rightarrow> unusable
                         | Inr t \<Rightarrow> t)
           in Some \<lparr> ident_type = type_v, ident_id = the (match_group m ''id'') \<rparr>))"

section \<open>The HTTP exchanges and the clock\<close>

text \<open>
  The catalog server is a script: the responses it will give, in the order of the requests.
  Every request is logged. When the script is used up the request raises, as the HTTP
  library does when no response arrives; so every loop over responses ends. The clock
  gives the successive readings of \<^verbatim>\<open>time.time()\<close>. Times are floats: \<open>fround\<close> is the
  rounding of the machine's float arithmetic, which takes the exact result of an operation
  to the float that the operation returns. It is a parameter of the world, so what is
  proved holds for every rounding. Readings of the clock are finite floats of the size of
  a time, so a sum of a reading and a float is finite.

  The authorisation header is kept as a value: \<open>Basic\<close> holds the two credentials that
  \<^verbatim>\<open>grant_headers\<close> encodes, \<open>Bearer\<close> the token that \<^verbatim>\<open>bearer_headers\<close> formats.
\<close>

datatype http_method = GET | POST

datatype auth = Basic string string | Bearer json

record request =
  req_method :: http_method
  req_url :: string
  req_auth :: auth

record response =
  status :: int
  reason :: "string option"
  body :: json

record world =
  script :: "response list"
  log :: "request list"
  clock :: "nat \<Rightarrow> real"
  ticks :: nat
  fround :: "real \<Rightarrow> real"

definition send :: "world \<Rightarrow> request \<Rightarrow> (error + response) \<times> world" where
  "send w rq =
     (case script w of
        [] \<Rightarrow> (Inl TransportError, w\<lparr>log := log w @ [rq]\<rparr>)
      | r # rs \<Rightarrow> (Inr r, w\<lparr>script := rs, log := log w @ [rq]\<rparr>))"

definition time_time :: "world \<Rightarrow> real \<times> world" where
  "time_time w = (clock w (ticks w), w\<lparr>ticks := Suc (ticks w)\<rparr>)"

definition GRANTURL :: string where
  "GRANTURL = ''https://accounts.spotify.com/api/token?grant_type=client_credentials''"

text \<open>\<^verbatim>\<open>BASEURL.format(entity=e, identifier=i)\<close> and \<^verbatim>\<open>RECURL.format(tracks=t)\<close>.\<close>

definition BASEURL :: "string \<Rightarrow> string \<Rightarrow> string" where
  "BASEURL entity identifier = ''https://api.spotify.com/v1/'' @ entity @ ''s/'' @ identifier"

definition RECURL :: "string \<Rightarrow> string" where
  "RECURL tracks = ''https://api.spotify.com/v1/recommendations?seed_tracks='' @ tracks"

text \<open>
  \<^verbatim>\<open>session.get(url, ...)\<close> where the URL comes from a payload: the HTTP library takes a
  string and raises on anything else, before a request is made.
\<close>

definition get_json_url :: "world \<Rightarrow> json \<Rightarrow> auth \<Rightarrow> (error + response) \<times> world" where
  "get_json_url w u a =
     (case u of
        JStr url \<Rightarrow> send w \<lparr>req_method = GET, req_url = url, req_auth = a\<rparr>
      | _ \<Rightarrow> (Inl TypeError, w))"

section \<open>Conversions of Python\<close>

definition py_space :: "char \<Rightarrow> bool" where
  "py_space ch \<longleftrightarrow> ch \<in> set [CHR '' '', CHR 0x09, CHR 0x0A, CHR 0x0B, CHR 0x0C, CHR 0x0D]"

definition strip :: "string \<Rightarrow> string" where
  "strip s = rev (dropWhile py_space (rev (dropWhile py_space s)))"

fun digit_groups :: "string \<Rightarrow> bool" where
  "digit_groups [] = False"
| "digit_groups [ch] = digit ch"
| "digit_groups (ch # ch' # cs) =
     (if digit ch then (if ch' = CHR ''_'' then digit_groups cs else digit_groups (ch' # cs))
      else False)"

definition digits_value :: "string \<Rightarrow> int" where
  "digits_value s =
     foldl (\<lambda>acc ch. 10 * acc + (int (of_char ch) - 48)) 0 (filter (\<lambda>ch. ch \<noteq> CHR ''_'') s)"

text \<open>
  \<^verbatim>\<open>int(s)\<close> on a string of ASCII characters: surrounding white space, one optional sign,
  decimal digits with single underscores between them.
\<close>

definition int_of_str :: "string \<Rightarrow> error + int" where
  "int_of_str s =
     (let t = strip s;
          neg = (t \<noteq> [] \<and> hd t = CHR ''-'');
          u = (if t \<noteq> [] \<and> (hd t = CHR ''-'' \<or> hd t = CHR ''+'') then tl t else t)
      in if digit_groups u then Inr ((if neg then - 1 else 1) * digits_value u)
         else Inl ValueError)"

text \<open>\<^verbatim>\<open>int(v)\<close> on a payload.\<close>

fun py_int :: "json \<Rightarrow> error + int" where
  "py_int (JNum n) = Inr n"
| "py_int (JBool b) = Inr (if b then 1 else 0)"
| "py_int (JStr s) = int_of_str s"
| "py_int _ = Inl TypeError"

fun join_strs :: "string \<Rightarrow> string list \<Rightarrow> string" where
  "join_strs sep [] = []"
| "join_strs sep [x] = x"
| "join_strs sep (x # y # ys) = x @ sep @ join_strs sep (y # ys)"

fun the_str :: "json \<Rightarrow> error + string" where
  "the_str (JStr s) = Inr s"
| "the_str _ = Inl TypeError"

text \<open>\<^verbatim>\<open>sep.join(xs)\<close>: every element must be a string.\<close>

definition py_join :: "string \<Rightarrow> json list \<Rightarrow> error + string" where
  "py_join sep xs = bind_e (map_e the_str xs) (\<lambda>ss. Inr (join_strs sep ss))"

text \<open>
  \<^verbatim>\<open>d[k] = v\<close>: a dictionary replaces the value of a key it has, in place, and adds a new
  key at the end; nothing else in a payload supports it with a string key.
\<close>

fun alist_set :: "string \<Rightarrow> json \<Rightarrow> (string \<times> json) list \<Rightarrow> (string \<times> json) list" where
  "alist_set k v [] = [(k, v)]"
| "alist_set k v (p # ps) = (if fst p = k then (k, v) # ps else p # alist_set k v ps)"

fun set_item :: "json \<Rightarrow> string \<Rightarrow> json \<Rightarrow> error + json" where
  "set_item (JObj kvs) k v = Inr (JObj (alist_set k v kvs))"
| "set_item _ k v = Inl TypeError"

section \<open>SpotifyClient\<close>

record SpotifyClient =
  client_id :: string
  client_secret :: string
  bearer_token :: json
  expiry :: real

text \<open>\<^verbatim>\<open>SpotifyClient.__init__\<close>: no token, expiry 0.\<close>

definition SpotifyClient_init :: "string \<Rightarrow> string \<Rightarrow> SpotifyClient" where
  "SpotifyClient_init cid secret =
     \<lparr> client_id = cid, client_secret = secret, bearer_token = JNull, expiry = 0 \<rparr>"

definition grant_headers :: "SpotifyClient \<Rightarrow> auth" where
  "grant_headers self = Basic (client_id self) (client_secret self)"

definition bearer_headers :: "SpotifyClient \<Rightarrow> auth" where
  "bearer_headers self = Bearer (bearer_token self)"

text \<open>
  \<^verbatim>\<open>t + m\<close> for a float \<open>t\<close> and an integer \<open>m\<close>: the integer is converted to a float
  first, which raises \<^verbatim>\<open>OverflowError\<close> when it rounds to no finite float, that is from
  \<open>2 ^ 1024 - 2 ^ 970\<close> on in absolute value; then the two floats are added.
\<close>

definition float_of_int :: "world \<Rightarrow> int \<Rightarrow> error + real" where
  "float_of_int w m =
     (if \<bar>m\<bar> \<ge> 2 ^ 1024 - 2 ^ 970 then Inl OverflowError else Inr (fround w (of_int m)))"

definition float_add_int :: "world \<Rightarrow> real \<Rightarrow> int \<Rightarrow> error + real" where
  "float_add_int w t m = bind_e (float_of_int w m) (\<lambda>d. Inr (fround w (t + d)))"

text \<open>
  \<^verbatim>\<open>_get_bearer_token\<close>. The token is stored before the expiry is computed; the clock is
  read before \<^verbatim>\<open>data['expires_in']\<close> is looked up and converted; the subtraction is one
  of integers, the addition one of a float and an integer.
\<close>

definition get_bearer_token :: "SpotifyClient \<Rightarrow> world \<Rightarrow> (error + unit) \<times> SpotifyClient \<times> world" where
  "get_bearer_token self w =
     (case send w \<lparr>req_method = POST, req_url = GRANTURL, req_auth = grant_headers self\<rparr> of
        (Inl e, w1) \<Rightarrow> (Inl e, self, w1)
      | (Inr resp, w1) \<Rightarrow>
          if status resp \<noteq> 200
          then (Inl (SpotifyRequestError (status resp) (reason resp)), self, w1)
          else (case subscript (body resp) ''access_token'' of
                  Inl e \<Rightarrow> (Inl e, self, w1)
                | Inr tok \<Rightarrow>
                    (let self1 = self\<lparr>bearer_token := tok\<rparr>;
                         (now, w2) = time_time w1
                     in case bind_e (subscript (body resp) ''expires_in'') py_int of
                          Inl e \<Rightarrow> (Inl e, self1, w2)
                        | Inr n \<Rightarrow>
                            (case float_add_int w2 now (n - 10) of
                               Inl e \<Rightarrow> (Inl e, self1, w2)
                             | Inr t \<Rightarrow> (Inr (), self1\<lparr>expiry := t\<rparr>, w2)))))"

text \<open>
  The first statement of \<^verbatim>\<open>_search\<close>:
  \<^verbatim>\<open>if not self._bearer_token or time.time() >= self._expiry: await self._get_bearer_token()\<close>.
  The clock is read only when there is a token.
\<close>

definition ensure_token :: "SpotifyClient \<Rightarrow> world \<Rightarrow> (error + unit) \<times> SpotifyClient \<times> world" where
  "ensure_token self w =
     (if \<not> truthy (bearer_token self) then get_bearer_token self w
      else (let (now, w1) = time_time w
            in if now \<ge> expiry self then get_bearer_token self w1
               else (Inr (), self, w1)))"

text \<open>The URL of the catalog request, from the query and the caller's type.\<close>

definition search_url :: "string \<Rightarrow> SpotifySearchType \<Rightarrow> string" where
  "search_url query ty =
     (case re_match URLREGEX query of
        Some regex_result \<Rightarrow>
          BASEURL (the (match_group regex_result ''type'')) (the (match_group regex_result ''id''))
      | None \<Rightarrow> BASEURL (type_name ty) query)"

text \<open>What \<^verbatim>\<open>_search\<close> returns: one track, a list of tracks, a list of raw payloads, or \<^verbatim>\<open>None\<close>.\<close>

datatype search_result =
    Single SpotifyTrack
  | Tracks "SpotifyTrack list"
  | RawItems "json list"
  | NoResult

text \<open>\<^verbatim>\<open>[t['track'] for t in v]\<close>.\<close>

definition item_tracks :: "json \<Rightarrow> error + json list" where
  "item_tracks v = bind_e (py_iter v) (map_e (\<lambda>t. subscript t ''track''))"

text \<open>
  The \<^verbatim>\<open>while True\<close> loop over the continuation pages of a playlist. A page is fetched
  and decoded; its status is not looked at. Every turn takes one response from the
  script, and the loop ends with the script at the latest.
\<close>

function playlist_pages :: "auth \<Rightarrow> json \<Rightarrow> json list \<Rightarrow> world \<Rightarrow> (error + json list) \<times> world" where
  "playlist_pages a url items w =
     (case get_json_url w url a of
        (Inl e, w1) \<Rightarrow> (Inl e, w1)
      | (Inr resp, w1) \<Rightarrow>
          (case bind_e (subscript (body resp) ''items'') item_tracks of
             Inl e \<Rightarrow> (Inl e, w1)
           | Inr more_items \<Rightarrow>
               (case subscript (body resp) ''next'' of
                  Inl e \<Rightarrow> (Inl e, w1)
                | Inr nxt \<Rightarrow>
                    if \<not> truthy nxt then (Inr (items @ more_items), w1)
                    else playlist_pages a nxt (items @ more_items) w1)))"
  by pat_completeness auto
termination
  by (relation "measure (\<lambda>(a, url, items, w). length (script w))")
     (auto simp: get_json_url_def send_def split: json.splits list.splits)

text \<open>The thirteen fields copied into \<^verbatim>\<open>album_data\<close>, in the order of the source.\<close>

definition album_keys :: "string list" where
  "album_keys = [''album_type'', ''artists'', ''available_markets'', ''external_urls'', ''href'',
                 ''id'', ''images'', ''name'', ''release_date'', ''release_date_precision'',
                 ''total_tracks'', ''type'', ''uri'']"

definition album_data :: "json \<Rightarrow> error + json" where
  "album_data data =
     bind_e (map_e (\<lambda>k. bind_e (subscript data k) (\<lambda>v. Inr (k, v))) album_keys)
       (\<lambda>kvs. Inr (JObj kvs))"

text \<open>The body of \<^verbatim>\<open>_search\<close> after a response with status 200: the branch on \<^verbatim>\<open>data['type']\<close>.\<close>

definition search_payload :: "auth \<Rightarrow> bool \<Rightarrow> json \<Rightarrow> world \<Rightarrow> (error + search_result) \<times> world" where
  "search_payload a iterator data w =
     (case subscript data ''type'' of
        Inl e \<Rightarrow> (Inl e, w)
      | Inr ty \<Rightarrow>
          if py_eq ty (JStr ''track'')
          then (bind_e (SpotifyTrack_init data) (\<lambda>t. Inr (Single t)), w)
          else if py_eq ty (JStr ''album'')
          then (bind_e (album_data data) (\<lambda>alb.
                bind_e (subscript data ''tracks'') (\<lambda>trs.
                bind_e (subscript trs ''items'') (\<lambda>its.
                bind_e (py_iter its) (\<lambda>item_list.
                  if iterator
                  then bind_e (map_e (\<lambda>tr. set_item tr ''album'' alb) item_list)
                         (\<lambda>raws. Inr (RawItems raws))
                  else bind_e (map_e (\<lambda>tr. bind_e (set_item tr ''album'' alb) SpotifyTrack_init)
                                 item_list)
                         (\<lambda>ts. Inr (Tracks ts)))))), w)
          else if py_eq ty (JStr ''playlist'')
          then (if iterator
                then (case bind_e (subscript data ''tracks'') (\<lambda>trs. subscript trs ''next'') of
                        Inl e \<Rightarrow> (Inl e, w)
                      | Inr nxt \<Rightarrow>
                          (case bind_e (subscript data ''tracks'') (\<lambda>trs.
                                bind_e (subscript trs ''items'') item_tracks) of
                             Inl e \<Rightarrow> (Inl e, w)
                           | Inr items \<Rightarrow>
                               if \<not> truthy nxt then (Inr (RawItems items), w)
                               else (case playlist_pages a nxt items w of
                                       (Inl e, w1) \<Rightarrow> (Inl e, w1)
                                     | (Inr all_items, w1) \<Rightarrow> (Inr (RawItems all_items), w1))))
                else (bind_e (subscript data ''tracks'') (\<lambda>trs.
                      bind_e (subscript trs ''items'') (\<lambda>its.
                      bind_e (py_iter its) (\<lambda>item_list.
                      bind_e (map_e SpotifyTrack_init item_list) (\<lambda>ts. Inr (Tracks ts))))), w))
          else (Inr NoResult, w))"

text \<open>\<^verbatim>\<open>SpotifyClient._search\<close>.\<close>

definition search_client ::
  "SpotifyClient \<Rightarrow> string \<Rightarrow> SpotifySearchType \<Rightarrow> bool \<Rightarrow> world
     \<Rightarrow> (error + search_result) \<times> SpotifyClient \<times> world" where
  "search_client self query ty iterator w =
     (case ensure_token self w of
        (Inl e, self1, w1) \<Rightarrow> (Inl e, self1, w1)
      | (Inr u, self1, w1) \<Rightarrow>
          (case send w1 \<lparr>req_method = GET, req_url = search_url query ty,
                         req_auth = bearer_headers self1\<rparr> of
             (Inl e, w2) \<Rightarrow> (Inl e, self1, w2)
           | (Inr resp, w2) \<Rightarrow>
               if status resp \<noteq> 200
               then (Inl (SpotifyRequestError (status resp) (reason resp)), self1, w2)
               else (case search_payload (bearer_headers self1) iterator (body resp) w2 of
                       (r, w3) \<Rightarrow> (r, self1, w3))))"

declare playlist_pages.simps [simp del]

section \<open>SpotifyTrack.search\<close>

text \<open>
  \<^verbatim>\<open>tracks[0]\<close> on what \<^verbatim>\<open>_search\<close> returned. A list gives its first element or an
  \<^verbatim>\<open>IndexError\<close>. \<^verbatim>\<open>SpotifyTrack\<close> defines no \<^verbatim>\<open>__getitem__\<close>, and \<^verbatim>\<open>None\<close> has none:
  indexing either is a \<^verbatim>\<open>TypeError\<close>. An element of a list of tracks is a track, an
  element of a list of payloads a payload.
\<close>

datatype search_value = Result search_result | Payload json

fun index0 :: "search_result \<Rightarrow> error + search_value" where
  "index0 (Single t) = Inl TypeError"
| "index0 NoResult = Inl TypeError"
| "index0 (Tracks ts) = (case ts of [] \<Rightarrow> Inl IndexError | t # _ \<Rightarrow> Inr (Result (Single t)))"
| "index0 (RawItems xs) = (case xs of [] \<Rightarrow> Inl IndexError | x # _ \<Rightarrow> Inr (Payload x))"

text \<open>
  \<^verbatim>\<open>SpotifyTrack.search\<close>, with the client of the node in place of the node. Both branches
  call \<^verbatim>\<open>_search\<close> without \<^verbatim>\<open>iterator\<close>.
\<close>

definition SpotifyTrack_search ::
  "SpotifyClient \<Rightarrow> string \<Rightarrow> SpotifySearchType \<Rightarrow> bool \<Rightarrow> world
     \<Rightarrow> (error + search_value) \<times> SpotifyClient \<times> world" where
  "SpotifyTrack_search sc query ty return_first w =
     (if ty = track
      then (case search_client sc query ty False w of
              (Inl e, sc1, w1) \<Rightarrow> (Inl e, sc1, w1)
            | (Inr tracks, sc1, w1) \<Rightarrow>
                (if return_first then index0 tracks else Inr (Result tracks), sc1, w1))
      else (case search_client sc query ty False w of
              (Inl e, sc1, w1) \<Rightarrow> (Inl e, sc1, w1)
            | (Inr r, sc1, w1) \<Rightarrow> (Inr (Result r), sc1, w1)))"

section \<open>SpotifyAsyncIterator\<close>

text \<open>
  An entry of the iterator's queue is what \<^verbatim>\<open>fill_queue\<close> put there: an element of the
  value that \<^verbatim>\<open>_search\<close> returned, a payload or a track already built.
\<close>

datatype entry = Raw json | Built SpotifyTrack

record SpotifyAsyncIterator =
  it_query :: string
  it_limit :: "int option"
  it_type :: SpotifySearchType
  it_first :: bool
  it_count :: int
  it_queue :: "entry list"

text \<open>
  \<^verbatim>\<open>SpotifyTrack.iterator\<close>: any type but album and playlist is refused before an
  iterator exists.
\<close>

definition SpotifyTrack_iterator ::
  "string \<Rightarrow> int option \<Rightarrow> SpotifySearchType \<Rightarrow> error + SpotifyAsyncIterator" where
  "SpotifyTrack_iterator query limit ty =
     (if ty \<noteq> album_type \<and> ty \<noteq> playlist then Inl TypeError
      else Inr \<lparr> it_query = query, it_limit = limit, it_type = ty,
                 it_first = True, it_count = 0, it_queue = [] \<rparr>)"

text \<open>\<^verbatim>\<open>for track in tracks\<close> in \<^verbatim>\<open>fill_queue\<close>: only the two lists can be iterated.\<close>

fun result_entries :: "search_result \<Rightarrow> error + entry list" where
  "result_entries (RawItems xs) = Inr (map Raw xs)"
| "result_entries (Tracks ts) = Inr (map Built ts)"
| "result_entries (Single t) = Inl TypeError"
| "result_entries NoResult = Inl TypeError"

definition fill_queue ::
  "SpotifyAsyncIterator \<Rightarrow> SpotifyClient \<Rightarrow> world
     \<Rightarrow> (error + unit) \<times> SpotifyAsyncIterator \<times> SpotifyClient \<times> world" where
  "fill_queue self sc w =
     (case search_client sc (it_query self) (it_type self) True w of
        (Inl e, sc1, w1) \<Rightarrow> (Inl e, self, sc1, w1)
      | (Inr tracks, sc1, w1) \<Rightarrow>
          (case result_entries tracks of
             Inl e \<Rightarrow> (Inl e, self, sc1, w1)
           | Inr es \<Rightarrow> (Inr (), self\<lparr>it_queue := it_queue self @ es\<rparr>, sc1, w1)))"

text \<open>\<^verbatim>\<open>SpotifyTrack(track)\<close> on a queue entry: a track has no \<^verbatim>\<open>__getitem__\<close>.\<close>

fun build_entry :: "entry \<Rightarrow> error + SpotifyTrack" where
  "build_entry (Raw d) = SpotifyTrack_init d"
| "build_entry (Built t) = Inl TypeError"

text \<open>
  \<^verbatim>\<open>__anext__\<close> once the queue is filled: the limit test, \<^verbatim>\<open>get_nowait\<close>, the call of
  itself on a \<^verbatim>\<open>None\<close> entry, the construction, the count. The result is the outcome, the
  new count and the new queue. The depth of the calls on consecutive \<^verbatim>\<open>None\<close> entries is
  not bounded here; the interpreter's recursion limit is outside the model.
\<close>

fun anext_queue :: "int option \<Rightarrow> int \<Rightarrow> entry list \<Rightarrow> (error + SpotifyTrack) \<times> int \<times> entry list" where
  "anext_queue limit count [] =
     (if limit \<noteq> None \<and> Some count = limit then (Inl StopAsyncIteration, count, [])
      else (Inl StopAsyncIteration, count, []))"
| "anext_queue limit count (e # q) =
     (if limit \<noteq> None \<and> Some count = limit then (Inl StopAsyncIteration, count, e # q)
      else if e = Raw JNull then anext_queue limit count q
      else (case build_entry e of
              Inl err \<Rightarrow> (Inl err, count, q)
            | Inr t \<Rightarrow> (Inr t, count + 1, q)))"

text \<open>\<^verbatim>\<open>SpotifyAsyncIterator.__anext__\<close>.\<close>

definition anext ::
  "SpotifyAsyncIterator \<Rightarrow> SpotifyClient \<Rightarrow> world
     \<Rightarrow> (error + SpotifyTrack) \<times> SpotifyAsyncIterator \<times> SpotifyClient \<times> world" where
  "anext self sc w =
     (case (if it_first self
            then (case fill_queue self sc w of
                    (Inl e, self1, sc1, w1) \<Rightarrow> (Inl e, self1, sc1, w1)
                  | (Inr u, self1, sc1, w1) \<Rightarrow> (Inr u, self1\<lparr>it_first := False\<rparr>, sc1, w1))
            else (Inr (), self, sc, w)) of
        (Inl e, self1, sc1, w1) \<Rightarrow> (Inl e, self1, sc1, w1)
      | (Inr u, self1, sc1, w1) \<Rightarrow>
          (case anext_queue (it_limit self1) (it_count self1) (it_queue self1) of
             (r, count', queue') \<Rightarrow>
               (r, self1\<lparr>it_count := count', it_queue := queue'\<rparr>, sc1, w1)))"

text \<open>
  \<^verbatim>\<open>async for track in iterator\<close>, on an iterator whose queue is filled: \<^verbatim>\<open>__anext__\<close> is
  called until it raises. \<^verbatim>\<open>StopAsyncIteration\<close> ends the loop; any other exception leaves
  it. The result is the tracks yielded, in order, and the exception that left the loop,
  if any. Every call that yields takes an entry from the queue.
\<close>

lemma anext_queue_shorter:
  "anext_queue limit count q = (Inr t, count', q') \<Longrightarrow> length q' < length q"
  by (induction limit count q rule: anext_queue.induct) (auto split: if_splits sum.splits)

function drain :: "int option \<Rightarrow> int \<Rightarrow> entry list \<Rightarrow> SpotifyTrack list \<times> error option" where
  "drain limit count q =
     (case anext_queue limit count q of
        (Inl e, count', q') \<Rightarrow> ([], if e = StopAsyncIteration then None else Some e)
      | (Inr t, count', q') \<Rightarrow>
          (case drain limit count' q' of (ts, r) \<Rightarrow> (t # ts, r)))"
  by pat_completeness auto
termination
  by (relation "measure (\<lambda>(limit, count, q). length q)")
     (auto dest: anext_queue_shorter [OF sym])

declare drain.simps [simp del]

text \<open>
  The whole loop on a fresh iterator: the first call fills the queue, and the calls after
  it only take from the queue.
\<close>

definition async_for ::
  "SpotifyAsyncIterator \<Rightarrow> SpotifyClient \<Rightarrow> world
     \<Rightarrow> (SpotifyTrack list \<times> error option) \<times> SpotifyClient \<times> world" where
  "async_for self sc w =
     (if it_first self
      then (case fill_queue self sc w of
              (Inl e, self1, sc1, w1) \<Rightarrow> (([], Some e), sc1, w1)
            | (Inr u, self1, sc1, w1) \<Rightarrow>
                (drain (it_limit self1) (it_count self1) (it_queue self1), sc1, w1))
      else (drain (it_limit self) (it_count self) (it_queue self), sc, w))"

section \<open>SpotifyTrack.fulfill\<close>

text \<open>
  The playback session as \<^verbatim>\<open>fulfill\<close> sees it: the autoplay flag, the seed list, the
  continuation queue with its history, and the client of the current node, if the node
  has one. \<^verbatim>\<open>put_wait\<close> adds a track at the end of the queue. The queue and its history
  hold what the session put there: tracks of this module, and playables of the playback
  library, which have no \<^verbatim>\<open>id\<close> attribute.
\<close>

datatype queued = Spotify SpotifyTrack | OtherPlayable

record Player =
  autoplay :: bool
  track_seeds :: "json list"
  auto_queue :: "queued list"
  auto_queue_history :: "queued list"
  spotify :: "SpotifyClient option"

text \<open>
  The two searches of the playable class are calls into the playback library. Their
  queries are formatted strings; here a query is the values it is formatted from.
\<close>

datatype playable_query = ByIsrc json | ByNameArtist json json

text \<open>\<^verbatim>\<open>self.artists[0]\<close>.\<close>

definition first_artist :: "SpotifyTrack \<Rightarrow> error + json" where
  "first_artist self = (case artists self of [] \<Rightarrow> Inl IndexError | a # _ \<Rightarrow> Inr a)"

text \<open>The \<^verbatim>\<open>try\<close> statement: only \<^verbatim>\<open>NoTracksError\<close> leads to the second search.\<close>

definition resolve :: "(playable_query \<Rightarrow> error + 'p list) \<Rightarrow> SpotifyTrack \<Rightarrow> error + 'p list" where
  "resolve cls_search self =
     (case cls_search (ByIsrc (isrc self)) of
        Inl e \<Rightarrow>
          if e = NoTracksError
          then bind_e (first_artist self) (\<lambda>a. cls_search (ByNameArtist (name self) a))
          else Inl e
      | Inr tracks \<Rightarrow> Inr tracks)"

definition first_track :: "'p list \<Rightarrow> error + 'p" where
  "first_track tracks = (case tracks of [] \<Rightarrow> Inl IndexError | t # _ \<Rightarrow> Inr t)"

text \<open>The two statements that change the seed list.\<close>

definition push_seed :: "json list \<Rightarrow> json \<Rightarrow> json list" where
  "push_seed seeds i = (if length seeds = 5 then tl seeds else seeds) @ [i]"

text \<open>
  \<^verbatim>\<open>reco in queue\<close>: the elements are compared with \<open>reco\<close> from the front until one is
  equal. A comparison with a track of this module is \<^verbatim>\<open>__eq__\<close>; one with another
  playable ends in \<^verbatim>\<open>SpotifyTrack.__eq__\<close> reading its \<^verbatim>\<open>id\<close>, an \<^verbatim>\<open>AttributeError\<close>.
\<close>

fun contains_track :: "queued list \<Rightarrow> SpotifyTrack \<Rightarrow> error + bool" where
  "contains_track [] reco = Inr False"
| "contains_track (Spotify x # q) reco =
     (if SpotifyTrack_eq x reco then Inr True else contains_track q reco)"
| "contains_track (OtherPlayable # q) reco = Inl AttributeError"

text \<open>
  The loop over the recommended tracks. The membership test is evaluated, the history
  only when the queue does not hold the track; its result is not used, both branches go
  on to \<^verbatim>\<open>put_wait\<close>. A test that raises ends the loop, with the tracks before it
  already in the queue. The result is the exception, if any, and the queue.
\<close>

fun enqueue_recos :: "SpotifyTrack list \<Rightarrow> queued list \<Rightarrow> queued list \<Rightarrow> error option \<times> queued list" where
  "enqueue_recos [] queue history = (None, queue)"
| "enqueue_recos (reco # recos) queue history =
     (case bind_e (contains_track queue reco)
             (\<lambda>found. if found then Inr True else contains_track history reco) of
        Inl e \<Rightarrow> (Some e, queue)
      | Inr dup \<Rightarrow>
          if dup then enqueue_recos recos (queue @ [Spotify reco]) history
          else enqueue_recos recos (queue @ [Spotify reco]) history)"

text \<open>
  \<^verbatim>\<open>SpotifyTrack.fulfill\<close>. On a node without a client the \<^verbatim>\<open>raise\<close> statement first
  formats its message, and the format \<^verbatim>\<open>{node:!r}\<close> of the node raises a \<^verbatim>\<open>TypeError\<close>;
  the \<^verbatim>\<open>RuntimeError\<close> is never built.
\<close>

definition fulfill ::
  "SpotifyTrack \<Rightarrow> Player \<Rightarrow> (playable_query \<Rightarrow> error + 'p list) \<Rightarrow> bool \<Rightarrow> world
     \<Rightarrow> (error + 'p) \<times> Player \<times> world" where
  "fulfill self player cls_search populate w =
     (case resolve cls_search self of
        Inl e \<Rightarrow> (Inl e, player, w)
      | Inr tracks \<Rightarrow>
          if \<not> autoplay player \<or> \<not> populate then (first_track tracks, player, w)
          else (case spotify player of
                  None \<Rightarrow> (Inl TypeError, player, w)
                | Some sc \<Rightarrow>
                    (let player1 = player\<lparr>track_seeds := push_seed (track_seeds player) (track_id self)\<rparr>
                     in case py_join '','' (track_seeds player1) of
                          Inl e \<Rightarrow> (Inl e, player1, w)
                        | Inr joined \<Rightarrow>
                            (case send w \<lparr>req_method = GET, req_url = RECURL joined,
                                          req_auth = bearer_headers sc\<rparr> of
                               (Inl e, w1) \<Rightarrow> (Inl e, player1, w1)
                             | (Inr resp, w1) \<Rightarrow>
                                 if status resp \<noteq> 200
                                 then (Inl (SpotifyRequestError (status resp) (reason resp)), player1, w1)
                                 else (case bind_e (subscript (body resp) ''tracks'') (\<lambda>v.
                                            bind_e (py_iter v) (map_e SpotifyTrack_init)) of
                                         Inl e \<Rightarrow> (Inl e, player1, w1)
                                       | Inr recos \<Rightarrow>
                                           (case enqueue_recos recos (auto_queue player1)
                                                   (auto_queue_history player1) of
                                              (Some e, queue1) \<Rightarrow>
                                                (Inl e, player1\<lparr>auto_queue := queue1\<rparr>, w1)
                                            | (None, queue1) \<Rightarrow>
                                                (first_track tracks,
                                                 player1\<lparr>auto_queue := queue1\<rparr>, w1)))))))"

definition ok_response :: "json \<Rightarrow> response" where
  "ok_response b = \<lparr> status = 200, reason = Some ''OK'', body = b \<rparr>"

definition sample_grant :: response where
  "sample_grant = ok_response (JObj [(''access_token'', JStr ''tok''), (''expires_in'', JNum 3600)])"

definition sample_world :: "response list \<Rightarrow> world" where
  "sample_world rs = \<lparr> script = rs, log = [], clock = (\<lambda>n. 1000 + real n), ticks = 0,
                       fround = (\<lambda>x. x) \<rparr>"

fun fulfill_many ::
  "(SpotifyTrack \<times> bool) list \<Rightarrow> (playable_query \<Rightarrow> error + 'p list) \<Rightarrow> Player \<Rightarrow> world
     \<Rightarrow> Player \<times> world" where
  "fulfill_many [] cls_search player w = (player, w)"
| "fulfill_many ((t, populate) # calls) cls_search player w =
     (case fulfill t player cls_search populate w of
        (r, player1, w1) \<Rightarrow> fulfill_many calls cls_search player1 w1)"

definition sample_player :: "json list \<Rightarrow> SpotifyClient option \<Rightarrow> Player" where
  "sample_player seeds sc =
     \<lparr> autoplay = True, track_seeds = seeds, auto_queue = [], auto_queue_history = [],
       spotify = sc \<rparr>"

definition found_one :: "playable_query \<Rightarrow> error + nat list" where
  "found_one q = Inr [0]"

definition search_fails :: "playable_query \<Rightarrow> error + nat list" where
  "search_fails q = Inl OtherError"

definition sample_client :: SpotifyClient where
  "sample_client = \<lparr>client_id = ''id'', client_secret = ''secret'', bearer_token = JStr ''tok'',
                     expiry = 4590\<rparr>"

definition local_track :: SpotifyTrack where
  "local_track = (sample_built ''local'' ''Local file'')\<lparr>track_id := JNull\<rparr>"

definition busy_player :: Player where
  "busy_player =
     \<lparr> autoplay = True, track_seeds = [],
       auto_queue = [Spotify (sample_built ''r1'' ''One'')],
       auto_queue_history = [Spotify (sample_built ''r2'' ''Two'')],
       spotify = Some sample_client \<rparr>"

definition mixed_player :: Player where
  "mixed_player =
     \<lparr> autoplay = True, track_seeds = [],
       auto_queue = [OtherPlayable],
       auto_queue_history = [],
       spotify = Some sample_client \<rparr>"

definition huge_grant :: response where
  "huge_grant = ok_response (JObj [(''access_token'', JStr ''tok''), (''expires_in'', JNum (10 ^ 400))])"

definition sample_recos :: response where
  "sample_recos = ok_response (JObj [(''tracks'',
      JArr [sample_track ''r1'' ''One'', sample_track ''r2'' ''Two'', sample_track ''r3'' ''Three''])])"

definition stale_client :: SpotifyClient where
  "stale_client = \<lparr>client_id = ''id'', client_secret = ''secret'', bearer_token = JStr ''old'',
                    expiry = 1000\<rparr>"

definition grants :: "request list \<Rightarrow> request list" where
  "grants rqs = filter (\<lambda>rq. req_method rq = POST) rqs"

text \<open>
  The exceptions that are a \<^verbatim>\<open>SpotifyRequestError\<close>, and the outcomes that raise one.
\<close>

fun is_request_error :: "error \<Rightarrow> bool" where
  "is_request_error (SpotifyRequestError s r) = True"
| "is_request_error _ = False"

definition request_error :: "error + 'a \<Rightarrow> bool" where
  "request_error r = (case r of Inl e \<Rightarrow> is_request_error e | Inr v \<Rightarrow> False)"





section \<open>Equality of tracks\<close>

lemma SpotifyTrack_init_id:
  "SpotifyTrack_init d = Inr t \<Longrightarrow> subscript d ''id'' = Inr (track_id t)"
  by (auto simp: SpotifyTrack_init_def bind_e_def split: sum.splits)

text \<open>
  Claim C9. Two tracks are equal exactly when their \<open>id\<close> attributes are equal as Python
  values. The other attributes play no part: replacing every one of them, in either
  track, leaves the result as it was. For ids that are strings, as the catalog sends
  them, equality of tracks is equality of the two strings.
\<close>

theorem SpotifyTrack_eq_iff_id:
  "(SpotifyTrack_eq a b \<longleftrightarrow> py_eq (track_id a) (track_id b))
   \<and> (track_id a' = track_id a \<and> track_id b' = track_id b
        \<longrightarrow> SpotifyTrack_eq a' b' = SpotifyTrack_eq a b)
   \<and> (track_id a = JStr x \<and> track_id b = JStr y \<longrightarrow> (SpotifyTrack_eq a b \<longleftrightarrow> x = y))"
  by (simp add: SpotifyTrack_eq_def)

theorem SpotifyTrack_eq_iff_id_witness:
  "(track_id (sample_built ''7'' ''live'') = track_id (sample_built ''7'' ''studio'')
      \<and> track_id (sample_built ''7'' ''remix'') = track_id (sample_built ''7'' ''demo''))
   \<and> SpotifyTrack_eq (sample_built ''7'' ''live'') (sample_built ''7'' ''remix'')
       = SpotifyTrack_eq (sample_built ''7'' ''studio'') (sample_built ''7'' ''demo'')
   \<and> (track_id (sample_built ''7'' ''studio'') = JStr ''7''
        \<and> track_id (sample_built ''7'' ''demo'') = JStr ''7'')
   \<and> SpotifyTrack_eq (sample_built ''7'' ''studio'') (sample_built ''7'' ''demo'')"
  using SpotifyTrack_eq_iff_id [of "sample_built ''7'' ''studio''" "sample_built ''7'' ''demo''"
      "sample_built ''7'' ''live''" "sample_built ''7'' ''remix''" "''7''" "''7''"]
  by (simp add: sample_built_def)

section \<open>The pattern matches exactly the catalog URLs\<close>

lemma no_named_caps: "no_named r \<Longrightarrow> x \<in> set (rmatch r s c) \<Longrightarrow> snd x = c"
proof (induction r arbitrary: s c x)
  case (Seq r1 r2)
  from Seq.prems(2) obtain y where y: "y \<in> set (rmatch r1 s c)" "x \<in> set (rmatch r2 (fst y) (snd y))"
    by (auto simp: case_prod_beta)
  have "snd y = c" using Seq.IH(1)[OF _ y(1)] Seq.prems(1) by simp
  moreover have "snd x = snd y" using Seq.IH(2)[OF _ y(2)] Seq.prems(1) by simp
  ultimately show ?case by simp
qed (auto split: if_splits list.splits)

declare rmatch.simps [simp del]

lemma opt_head:
  assumes "no_named a"
  shows "\<exists>r ms. rmatch (Opt a) s c = (r, c) # ms"
proof (cases "rmatch a s c")
  case Nil
  then show ?thesis by (simp add: rmatch.simps)
next
  case (Cons x xs)
  then have "x \<in> set (rmatch a s c)" by simp
  then have "snd x = c" using assms no_named_caps by blast
  then have "x = (fst x, c)" by (metis prod.collapse)
  then show ?thesis using Cons by (metis append_Cons rmatch.simps(6))
qed

lemma trailer_head:
  assumes "no_named a" "no_named b"
  shows "\<exists>r ms. rmatch (Seq (Opt a) (Opt b)) s c = (r, c) # ms"
proof -
  obtain r1 m1 where 1: "rmatch (Opt a) s c = (r1, c) # m1" using opt_head[OF assms(1)] by blast
  obtain r2 m2 where 2: "rmatch (Opt b) r1 c = (r2, c) # m2" using opt_head[OF assms(2)] by blast
  show ?thesis using 1 2 by (simp add: rmatch.simps(4))
qed

lemma takeWhile_ident:
  assumes "list_all alnum ident" "case rest of [] \<Rightarrow> True | r # _ \<Rightarrow> \<not> alnum r"
  shows "takeWhile alnum (ident @ rest) = ident"
  using assms by (induction ident) (auto split: list.splits)

lemma plus_head:
  assumes "ident \<noteq> []" "list_all alnum ident" "case rest of [] \<Rightarrow> True | r # _ \<Rightarrow> \<not> alnum r"
  shows "\<exists>ms. rmatch (PlusCls alnum) (ident @ rest) c = (rest, c) # ms"
proof -
  have "length ident \<noteq> 0" using assms(1) by simp
  then obtain n where n: "length ident = Suc n" by (cases "length ident") auto
  have "rev [1 ..< Suc (length ident)] = length ident # rev [1 ..< length ident]"
    using n by simp
  then show ?thesis using takeWhile_ident[OF assms(2,3)] by (simp add: rmatch.simps(3))
qed

lemma id_tail_head:
  assumes "ident \<noteq> []" "list_all alnum ident" "case rest of [] \<Rightarrow> True | r # _ \<Rightarrow> \<not> alnum r"
  shows "\<exists>r ms. rmatch ID_TAIL (ident @ rest) c = (r, c(''id'' \<mapsto> ident)) # ms"
proof -
  obtain m1 where 1: "rmatch (PlusCls alnum) (ident @ rest) c = (rest, c) # m1"
    using plus_head[OF assms] by blast
  have 2: "rmatch (Named ''id'' (PlusCls alnum)) (ident @ rest) c
          = (rest, c(''id'' \<mapsto> ident)) # map (\<lambda>(s', c'). (s', c'(''id'' \<mapsto> take (length (ident @ rest) - length s') (ident @ rest)))) m1"
    using 1 by (simp add: rmatch.simps(7))
  obtain r2 m2 where 3: "rmatch (Seq (Opt (Seq (Lit ''?si='') (PlusCls alnum)))
         (Opt (Seq (Lit ''&dl_branch='') (PlusCls digit)))) rest (c(''id'' \<mapsto> ident)) = (r2, c(''id'' \<mapsto> ident)) # m2"
    using trailer_head[of "Seq (Lit ''?si='') (PlusCls alnum)" "Seq (Lit ''&dl_branch='') (PlusCls digit)" rest "c(''id'' \<mapsto> ident)"] by auto
  show ?thesis unfolding ID_TAIL_def rmatch.simps(4)[of "Named ''id'' (PlusCls alnum)"] 2 using 3 by simp
qed

lemma seq_head:
  assumes "rmatch a s c = (s1, c1) # ms" "rmatch b s1 c1 = x # ms2"
  shows "\<exists>ms3. rmatch (Seq a b) s c = x # ms3"
  using assms by (simp add: rmatch.simps(4))

lemma URLREGEX_parts:
  "URLREGEX = Seq HOST (Seq (Lit ''spotify'') (Seq DOMSEP (Seq ENTITY (Seq IDSEP ID_TAIL))))"
  by (simp add: URLREGEX_def ID_TAIL_def HOST_def DOMSEP_def ENTITY_def IDSEP_def)

lemma host_head:
  assumes "host_prefix pre"
  shows "\<exists>ms. rmatch HOST (pre @ ''spotify'' @ u) c = (''spotify'' @ u, c) # ms"
  using assms unfolding host_prefix_def HOST_def
  by (elim disjE exE conjE; simp add: rmatch.simps)

lemma spotify_head: "rmatch (Lit ''spotify'') (''spotify'' @ u) c = [(u, c)]"
  by (simp add: rmatch.simps)

lemma domsep_head:
  assumes "domain_sep mid" "en \<in> set [''album'', ''playlist'', ''track'', ''artist'']"
  shows "\<exists>ms. rmatch DOMSEP (mid @ en @ u) c = (en @ u, c) # ms"
  using assms unfolding domain_sep_def DOMSEP_def
  by (elim disjE exE conjE; auto simp add: rmatch.simps)

lemma entity_head:
  assumes "en \<in> set [''album'', ''playlist'', ''track'', ''artist'']"
  shows "\<exists>ms. rmatch ENTITY (en @ u) c = (u, c(''type'' \<mapsto> en)) # ms"
  using assms unfolding ENTITY_def
  by (auto simp add: rmatch.simps)

lemma idsep_head:
  assumes "sep = CHR ''/'' \<or> sep = CHR '':''"
  shows "\<exists>ms. rmatch IDSEP (sep # u) c = (u, c) # ms"
  using assms unfolding IDSEP_def
  by (elim disjE; simp add: rmatch.simps)

lemma match_of_catalog_url:
  assumes "catalog_url s en i"
  shows "\<exists>m. re_match URLREGEX s = Some m \<and> match_group m ''type'' = Some en \<and> match_group m ''id'' = Some i"
proof -
  from assms obtain pre mid sep rest where
    s: "s = pre @ ''spotify'' @ mid @ en @ [sep] @ i @ rest"
    and pre: "host_prefix pre" and mid: "domain_sep mid"
    and en: "en \<in> set [''album'', ''playlist'', ''track'', ''artist'']"
    and sep: "sep = CHR ''/'' \<or> sep = CHR '':''"
    and i: "i \<noteq> []" "list_all alnum i" "case rest of [] \<Rightarrow> True | r # _ \<Rightarrow> \<not> alnum r"
    unfolding catalog_url_def by blast
  let ?c = "[''type'' \<mapsto> en, ''id'' \<mapsto> i]"
  obtain r m6 where 6: "rmatch ID_TAIL (i @ rest) [''type'' \<mapsto> en] = (r, ?c) # m6"
    using id_tail_head[OF i, of "[''type'' \<mapsto> en]"] by blast
  obtain m5 where 5: "rmatch IDSEP (sep # i @ rest) [''type'' \<mapsto> en] = (i @ rest, [''type'' \<mapsto> en]) # m5"
    using idsep_head[OF sep] by blast
  obtain m4 where 4: "rmatch ENTITY (en @ sep # i @ rest) Map.empty = (sep # i @ rest, [''type'' \<mapsto> en]) # m4"
    using entity_head[OF en, of "sep # i @ rest" Map.empty] by blast
  obtain m3 where 3: "rmatch DOMSEP (mid @ en @ sep # i @ rest) Map.empty = (en @ sep # i @ rest, Map.empty) # m3"
    using domsep_head[OF mid en] by blast
  obtain m1 where 1: "rmatch HOST (pre @ ''spotify'' @ mid @ en @ sep # i @ rest) Map.empty
       = (''spotify'' @ mid @ en @ sep # i @ rest, Map.empty) # m1"
    using host_head[OF pre] by blast
  obtain n5 where "rmatch (Seq IDSEP ID_TAIL) (sep # i @ rest) [''type'' \<mapsto> en] = (r, ?c) # n5"
    using seq_head[OF 5 6] by blast
  then obtain n4 where "rmatch (Seq ENTITY (Seq IDSEP ID_TAIL)) (en @ sep # i @ rest) Map.empty = (r, ?c) # n4"
    using seq_head[OF 4] by blast
  then obtain n3 where "rmatch (Seq DOMSEP (Seq ENTITY (Seq IDSEP ID_TAIL))) (mid @ en @ sep # i @ rest) Map.empty = (r, ?c) # n3"
    using seq_head[OF 3] by blast
  then obtain n2 where "rmatch (Seq (Lit ''spotify'') (Seq DOMSEP (Seq ENTITY (Seq IDSEP ID_TAIL))))
       (''spotify'' @ mid @ en @ sep # i @ rest) Map.empty = (r, ?c) # n2"
    using seq_head[OF spotify_head] by blast
  then obtain n1 where "rmatch URLREGEX (pre @ ''spotify'' @ mid @ en @ sep # i @ rest) Map.empty = (r, ?c) # n1"
    unfolding URLREGEX_parts using seq_head[OF 1] by blast
  then show ?thesis unfolding s by (auto simp: re_match_def match_group_def)
qed

lemma inv_seq:
  assumes "x \<in> set (rmatch (Seq a b) s c)"
  obtains t c1 where "(t, c1) \<in> set (rmatch a s c)" "x \<in> set (rmatch b t c1)"
  using assms by (auto simp: rmatch.simps(4))

lemma inv_opt:
  assumes "x \<in> set (rmatch (Opt a) s c)"
  shows "x \<in> set (rmatch a s c) \<or> x = (s, c)"
  using assms by (auto simp: rmatch.simps(6))

lemma inv_alt:
  assumes "x \<in> set (rmatch (Alt a b) s c)"
  shows "x \<in> set (rmatch a s c) \<or> x \<in> set (rmatch b s c)"
  using assms by (auto simp: rmatch.simps(5))

lemma inv_lit:
  assumes "(t, c1) \<in> set (rmatch (Lit l) s c)"
  shows "c1 = c \<and> s = l @ t"
  using assms by (auto simp: rmatch.simps(1) split: if_splits) (metis append_take_drop_id)

lemma inv_dot:
  assumes "(t, c1) \<in> set (rmatch Dot s c)"
  shows "c1 = c \<and> (\<exists>ch. ch \<noteq> CHR 0x0A \<and> s = ch # t)"
  using assms by (auto simp: rmatch.simps(2) split: list.splits if_splits)

lemma host_prefix_http: "ch \<noteq> CHR 0x0A \<Longrightarrow> host_prefix (''http://open'' @ [ch])"
  unfolding host_prefix_def by (intro disjI2 exI[of _ ch] conjI disjI1) simp_all

lemma host_prefix_https: "ch \<noteq> CHR 0x0A \<Longrightarrow> host_prefix (''https://open'' @ [ch])"
  unfolding host_prefix_def by (intro disjI2 exI[of _ ch] conjI disjI2) simp_all

lemma host_prefix_Nil: "host_prefix []"
  unfolding host_prefix_def by (rule disjI1) simp

lemma inv_host:
  assumes "(t, c1) \<in> set (rmatch HOST s c)"
  shows "c1 = c \<and> (\<exists>pre. host_prefix pre \<and> s = pre @ t)"
proof -
  from assms have "(t, c1) \<in> set (rmatch (Seq (Lit ''http'') (Seq (Opt (Lit ''s'')) (Seq (Lit ''://open'') Dot))) s c)
      \<or> (t, c1) = (s, c)"
    unfolding HOST_def by (rule inv_opt)
  then show ?thesis
  proof
    assume "(t, c1) = (s, c)"
    then have "c1 = c" "s = [] @ t" by simp_all
    then show ?thesis using host_prefix_Nil by blast
  next
    assume a: "(t, c1) \<in> set (rmatch (Seq (Lit ''http'') (Seq (Opt (Lit ''s'')) (Seq (Lit ''://open'') Dot))) s c)"
    then obtain t1 d1 where 1: "(t1, d1) \<in> set (rmatch (Lit ''http'') s c)"
      and 2: "(t, c1) \<in> set (rmatch (Seq (Opt (Lit ''s'')) (Seq (Lit ''://open'') Dot)) t1 d1)"
      by (rule inv_seq)
    from 2 obtain t2 d2 where 3: "(t2, d2) \<in> set (rmatch (Opt (Lit ''s'')) t1 d1)"
      and 4: "(t, c1) \<in> set (rmatch (Seq (Lit ''://open'') Dot) t2 d2)"
      by (rule inv_seq)
    from 4 obtain t3 d3 where 5: "(t3, d3) \<in> set (rmatch (Lit ''://open'') t2 d2)"
      and 6: "(t, c1) \<in> set (rmatch Dot t3 d3)"
      by (rule inv_seq)
    from inv_lit[OF 1] have s1: "d1 = c" "s = ''http'' @ t1" by simp_all
    from 3 have "(t2, d2) \<in> set (rmatch (Lit ''s'') t1 d1) \<or> (t2, d2) = (t1, d1)"
      by (rule inv_opt)
    then have s2: "d2 = d1 \<and> (t1 = ''s'' @ t2 \<or> t1 = t2)"
    proof
      assume "(t2, d2) \<in> set (rmatch (Lit ''s'') t1 d1)"
      from inv_lit[OF this] show ?thesis by simp
    next
      assume "(t2, d2) = (t1, d1)"
      then show ?thesis by simp
    qed
    from inv_lit[OF 5] have s3: "d3 = d2" "t2 = ''://open'' @ t3" by simp_all
    from inv_dot[OF 6] obtain ch where s4: "c1 = d3" "ch \<noteq> CHR 0x0A" "t3 = ch # t" by blast
    have c: "c1 = c" using s1(1) s2 s3(1) s4(1) by simp
    from s2 have "t1 = ''s'' @ t2 \<or> t1 = t2" by simp
    then have "\<exists>pre. host_prefix pre \<and> s = pre @ t"
    proof
      assume "t1 = ''s'' @ t2"
      then have "s = (''https://open'' @ [ch]) @ t"
        by (simp add: s1(2) s3(2) s4(3))
      with host_prefix_https[OF s4(2)] show ?thesis by blast
    next
      assume "t1 = t2"
      then have "s = (''http://open'' @ [ch]) @ t"
        by (simp add: s1(2) s3(2) s4(3))
      with host_prefix_http[OF s4(2)] show ?thesis by blast
    qed
    with c show ?thesis by simp
  qed
qed

lemma inv_domsep:
  assumes "(t, c1) \<in> set (rmatch DOMSEP s c)"
  shows "\<exists>mid. domain_sep mid \<and> s = mid @ t"
proof -
  from assms have "(t, c1) \<in> set (rmatch (Seq Dot (Lit ''com/'')) s c) \<or> (t, c1) \<in> set (rmatch (Lit '':'') s c)"
    unfolding DOMSEP_def by (rule inv_alt)
  then show ?thesis
  proof
    assume "(t, c1) \<in> set (rmatch (Lit '':'') s c)"
    from inv_lit[OF this] have "s = '':'' @ t" by simp
    moreover have "domain_sep '':''" unfolding domain_sep_def by (rule disjI1) simp
    ultimately show ?thesis by blast
  next
    assume "(t, c1) \<in> set (rmatch (Seq Dot (Lit ''com/'')) s c)"
    then obtain t1 d1 where 1: "(t1, d1) \<in> set (rmatch Dot s c)" and 2: "(t, c1) \<in> set (rmatch (Lit ''com/'') t1 d1)"
      by (rule inv_seq)
    from inv_dot[OF 1] obtain ch where ch: "ch \<noteq> CHR 0x0A" "s = ch # t1" by blast
    from inv_lit[OF 2] have t1: "t1 = ''com/'' @ t" by simp
    have "domain_sep (ch # ''com/'')"
      unfolding domain_sep_def using ch(1) by (intro disjI2 exI[of _ ch]) simp
    moreover have "s = (ch # ''com/'') @ t" using ch(2) t1 by simp
    ultimately show ?thesis by blast
  qed
qed

lemma inv_named:
  assumes "(t, c1) \<in> set (rmatch (Named g a) s c)"
  shows "\<exists>d. (t, d) \<in> set (rmatch a s c)"
  using assms by (auto simp: rmatch.simps(7))

lemma inv_entity:
  assumes "(t, c1) \<in> set (rmatch ENTITY s c)"
  shows "\<exists>en. en \<in> set [''album'', ''playlist'', ''track'', ''artist''] \<and> s = en @ t"
proof -
  from assms obtain d where d: "(t, d) \<in> set (rmatch
      (Alt (Lit ''album'') (Alt (Lit ''playlist'') (Alt (Lit ''track'') (Lit ''artist'')))) s c)"
    unfolding ENTITY_def using inv_named by blast
  from inv_alt[OF d] show ?thesis
  proof
    assume "(t, d) \<in> set (rmatch (Lit ''album'') s c)"
    from inv_lit[OF this] have "s = ''album'' @ t" by simp
    then show ?thesis by (intro exI[of _ "''album''"]) simp
  next
    assume "(t, d) \<in> set (rmatch (Alt (Lit ''playlist'') (Alt (Lit ''track'') (Lit ''artist''))) s c)"
    from inv_alt[OF this] show ?thesis
    proof
      assume "(t, d) \<in> set (rmatch (Lit ''playlist'') s c)"
      from inv_lit[OF this] have "s = ''playlist'' @ t" by simp
      then show ?thesis by (intro exI[of _ "''playlist''"]) simp
    next
      assume "(t, d) \<in> set (rmatch (Alt (Lit ''track'') (Lit ''artist'')) s c)"
      from inv_alt[OF this] show ?thesis
      proof
        assume "(t, d) \<in> set (rmatch (Lit ''track'') s c)"
        from inv_lit[OF this] have "s = ''track'' @ t" by simp
        then show ?thesis by (intro exI[of _ "''track''"]) simp
      next
        assume "(t, d) \<in> set (rmatch (Lit ''artist'') s c)"
        from inv_lit[OF this] have "s = ''artist'' @ t" by simp
        then show ?thesis by (intro exI[of _ "''artist''"]) simp
      qed
    qed
  qed
qed

lemma inv_idsep:
  assumes "(t, c1) \<in> set (rmatch IDSEP s c)"
  shows "\<exists>sep. (sep = CHR ''/'' \<or> sep = CHR '':'') \<and> s = sep # t"
proof -
  from assms have "(t, c1) \<in> set (rmatch (Lit ''/'') s c) \<or> (t, c1) \<in> set (rmatch (Lit '':'') s c)"
    unfolding IDSEP_def by (rule inv_alt)
  then show ?thesis
  proof
    assume "(t, c1) \<in> set (rmatch (Lit ''/'') s c)"
    from inv_lit[OF this] have "s = CHR ''/'' # t" by simp
    then show ?thesis by blast
  next
    assume "(t, c1) \<in> set (rmatch (Lit '':'') s c)"
    from inv_lit[OF this] have "s = CHR '':'' # t" by simp
    then show ?thesis by blast
  qed
qed

lemma inv_tail:
  assumes "x \<in> set (rmatch ID_TAIL s c)"
  shows "takeWhile alnum s \<noteq> []"
proof -
  from assms obtain t1 d1 where "(t1, d1) \<in> set (rmatch (Named ''id'' (PlusCls alnum)) s c)"
    unfolding ID_TAIL_def by (rule inv_seq)
  then obtain d where "(t1, d) \<in> set (rmatch (PlusCls alnum) s c)" using inv_named by blast
  then have "rmatch (PlusCls alnum) s c \<noteq> []" by auto
  then show ?thesis by (auto simp: rmatch.simps(3) split: if_splits)
qed

lemma catalog_url_of_match:
  assumes "rmatch URLREGEX s c \<noteq> []"
  shows "\<exists>en i. catalog_url s en i"
proof -
  from assms obtain x where "x \<in> set (rmatch URLREGEX s c)" by (cases "rmatch URLREGEX s c") auto
  then obtain t1 d1 where 1: "(t1, d1) \<in> set (rmatch HOST s c)"
    and r1: "x \<in> set (rmatch (Seq (Lit ''spotify'') (Seq DOMSEP (Seq ENTITY (Seq IDSEP ID_TAIL)))) t1 d1)"
    unfolding URLREGEX_parts by (rule inv_seq)
  from r1 obtain t2 d2 where 2: "(t2, d2) \<in> set (rmatch (Lit ''spotify'') t1 d1)"
    and r2: "x \<in> set (rmatch (Seq DOMSEP (Seq ENTITY (Seq IDSEP ID_TAIL))) t2 d2)"
    by (rule inv_seq)
  from r2 obtain t3 d3 where 3: "(t3, d3) \<in> set (rmatch DOMSEP t2 d2)"
    and r3: "x \<in> set (rmatch (Seq ENTITY (Seq IDSEP ID_TAIL)) t3 d3)"
    by (rule inv_seq)
  from r3 obtain t4 d4 where 4: "(t4, d4) \<in> set (rmatch ENTITY t3 d3)"
    and r4: "x \<in> set (rmatch (Seq IDSEP ID_TAIL) t4 d4)"
    by (rule inv_seq)
  from r4 obtain t5 d5 where 5: "(t5, d5) \<in> set (rmatch IDSEP t4 d4)"
    and r5: "x \<in> set (rmatch ID_TAIL t5 d5)"
    by (rule inv_seq)
  from inv_host[OF 1] obtain pre where pre: "host_prefix pre" "s = pre @ t1" by blast
  from inv_lit[OF 2] have sp: "t1 = ''spotify'' @ t2" by simp
  from inv_domsep[OF 3] obtain mid where mid: "domain_sep mid" "t2 = mid @ t3" by blast
  from inv_entity[OF 4] obtain en where en: "en \<in> set [''album'', ''playlist'', ''track'', ''artist'']" "t3 = en @ t4"
    by blast
  from inv_idsep[OF 5] obtain sep where sep: "sep = CHR ''/'' \<or> sep = CHR '':''" "t4 = sep # t5" by blast
  from r5 have ne: "takeWhile alnum t5 \<noteq> []" by (rule inv_tail)
  let ?i = "takeWhile alnum t5" and ?rest = "dropWhile alnum t5"
  have "t5 = ?i @ ?rest" by simp
  then have e: "s = pre @ ''spotify'' @ mid @ en @ [sep] @ ?i @ ?rest"
    unfolding pre(2) sp mid(2) en(2) sep(2) by simp
  have a: "list_all alnum ?i" unfolding list_all_iff using set_takeWhileD by fast
  have r: "case ?rest of [] \<Rightarrow> True | r # _ \<Rightarrow> \<not> alnum r"
  proof (cases ?rest)
    case Nil
    show ?thesis unfolding Nil by simp
  next
    case (Cons r rs)
    then have "?rest \<noteq> []" by simp
    from hd_dropWhile[OF this] show ?thesis unfolding Cons by simp
  qed
  have "catalog_url s en ?i"
    unfolding catalog_url_def
    by (intro exI[of _ pre] exI[of _ mid] exI[of _ sep] exI[of _ ?rest] conjI e pre(1) mid(1) en(1) sep(1) ne a r)
  then show ?thesis by blast
qed

lemma decode_url_of_catalog_url:
  assumes "catalog_url s e i"
  shows "decode_url s = Some \<lparr> ident_type = (case SpotifySearchType_of e of Inl x \<Rightarrow> unusable | Inr t \<Rightarrow> t),
                               ident_id = i \<rparr>"
proof -
  from match_of_catalog_url[OF assms] obtain m where
    m: "re_match URLREGEX s = Some m" "match_group m ''type'' = Some e" "match_group m ''id'' = Some i"
    by blast
  show ?thesis unfolding decode_url_def m(1) by (simp add: m(2,3))
qed

lemma no_match_iff: "(re_match URLREGEX s = None) = (\<forall>e i. \<not> catalog_url s e i)"
proof
  assume n: "re_match URLREGEX s = None"
  show "\<forall>e i. \<not> catalog_url s e i"
  proof (intro allI notI)
    fix e i assume "catalog_url s e i"
    from match_of_catalog_url[OF this] n show False by simp
  qed
next
  assume a: "\<forall>e i. \<not> catalog_url s e i"
  have "rmatch URLREGEX s Map.empty = []"
  proof (rule ccontr)
    assume "rmatch URLREGEX s Map.empty \<noteq> []"
    from catalog_url_of_match[OF this] a show False by blast
  qed
  then show "re_match URLREGEX s = None" by (simp add: re_match_def)
qed

lemma catalog_url_example_track:
  "catalog_url ''https://open.spotify.com/track/6BDLcvvtyJD2vnXRDi1IjQ?si=abc123'' ''track''
     ''6BDLcvvtyJD2vnXRDi1IjQ''"
  unfolding catalog_url_def
  by (intro exI[of _ "''https://open.''"] exI[of _ "''.com/''"] exI[of _ "CHR ''/''"]
        exI[of _ "''?si=abc123''"])
     (simp add: host_prefix_def domain_sep_def alnum_def)

lemma catalog_url_example_artist:
  "catalog_url ''spotify:artist:0OdUWJ0sBjDrqHygGUXeCF'' ''artist'' ''0OdUWJ0sBjDrqHygGUXeCF''"
  unfolding catalog_url_def
  by (intro exI[of _ "[]"] exI[of _ "'':''"] exI[of _ "CHR '':''"] exI[of _ "[]"])
     (simp add: host_prefix_def domain_sep_def alnum_def)

lemma no_match_example: "re_match URLREGEX ''never gonna give you up'' = None"
  by (simp add: re_match_def URLREGEX_def rmatch.simps)

text \<open>
  Claim C4. A string that starts with a catalog URL whose entity name is \<^verbatim>\<open>track\<close>,
  \<^verbatim>\<open>album\<close> or \<^verbatim>\<open>playlist\<close> is decoded to that type and to the id of the URL; with the
  entity name \<^verbatim>\<open>artist\<close> it is decoded to the type \<open>unusable\<close> and the id. The strings
  the pattern does not match are exactly those that start with no catalog URL, and for
  them \<^verbatim>\<open>decode_url\<close> returns \<^verbatim>\<open>None\<close>; it raises in no case.
\<close>

theorem decode_url_catalog_url:
  "(catalog_url s ''track'' i \<longrightarrow> decode_url s = Some \<lparr>ident_type = track, ident_id = i\<rparr>)
   \<and> (catalog_url s ''album'' i \<longrightarrow> decode_url s = Some \<lparr>ident_type = album_type, ident_id = i\<rparr>)
   \<and> (catalog_url s ''playlist'' i \<longrightarrow> decode_url s = Some \<lparr>ident_type = playlist, ident_id = i\<rparr>)
   \<and> (catalog_url s ''artist'' i \<longrightarrow> decode_url s = Some \<lparr>ident_type = unusable, ident_id = i\<rparr>)
   \<and> ((re_match URLREGEX s = None) = (\<forall>e j. \<not> catalog_url s e j))
   \<and> ((\<forall>e j. \<not> catalog_url s e j) \<longrightarrow> decode_url s = None)"
proof (intro conjI impI)
  assume "catalog_url s ''track'' i"
  from decode_url_of_catalog_url[OF this]
  show "decode_url s = Some \<lparr>ident_type = track, ident_id = i\<rparr>"
    by (simp add: SpotifySearchType_of_def)
next
  assume "catalog_url s ''album'' i"
  from decode_url_of_catalog_url[OF this]
  show "decode_url s = Some \<lparr>ident_type = album_type, ident_id = i\<rparr>"
    by (simp add: SpotifySearchType_of_def)
next
  assume "catalog_url s ''playlist'' i"
  from decode_url_of_catalog_url[OF this]
  show "decode_url s = Some \<lparr>ident_type = playlist, ident_id = i\<rparr>"
    by (simp add: SpotifySearchType_of_def)
next
  assume "catalog_url s ''artist'' i"
  from decode_url_of_catalog_url[OF this]
  show "decode_url s = Some \<lparr>ident_type = unusable, ident_id = i\<rparr>"
    by (simp add: SpotifySearchType_of_def)
next
  show "(re_match URLREGEX s = None) = (\<forall>e j. \<not> catalog_url s e j)" by (rule no_match_iff)
next
  assume "\<forall>e j. \<not> catalog_url s e j"
  then have "re_match URLREGEX s = None" using no_match_iff by blast
  then show "decode_url s = None" by (simp add: decode_url_def)
qed

theorem decode_url_catalog_url_witness:
  "catalog_url ''https://open.spotify.com/track/6BDLcvvtyJD2vnXRDi1IjQ?si=abc123'' ''track''
     ''6BDLcvvtyJD2vnXRDi1IjQ''
   \<and> decode_url ''https://open.spotify.com/track/6BDLcvvtyJD2vnXRDi1IjQ?si=abc123''
       = Some \<lparr>ident_type = track, ident_id = ''6BDLcvvtyJD2vnXRDi1IjQ''\<rparr>
   \<and> catalog_url ''spotify:artist:0OdUWJ0sBjDrqHygGUXeCF'' ''artist'' ''0OdUWJ0sBjDrqHygGUXeCF''
   \<and> decode_url ''spotify:artist:0OdUWJ0sBjDrqHygGUXeCF''
       = Some \<lparr>ident_type = unusable, ident_id = ''0OdUWJ0sBjDrqHygGUXeCF''\<rparr>
   \<and> (\<forall>e j. \<not> catalog_url ''never gonna give you up'' e j)
   \<and> decode_url ''never gonna give you up'' = None"
proof -
  note t = decode_url_catalog_url [of "''https://open.spotify.com/track/6BDLcvvtyJD2vnXRDi1IjQ?si=abc123''"
          "''6BDLcvvtyJD2vnXRDi1IjQ''"]
  note a = decode_url_catalog_url [of "''spotify:artist:0OdUWJ0sBjDrqHygGUXeCF''" "''0OdUWJ0sBjDrqHygGUXeCF''"]
  note n = decode_url_catalog_url [of "''never gonna give you up''" "[]"]
  note 1 = t [THEN conjunct1, THEN mp, OF catalog_url_example_track]
  note 2 = a [THEN conjunct2, THEN conjunct2, THEN conjunct2, THEN conjunct1, THEN mp,
              OF catalog_url_example_artist]
  note 3 = n [THEN conjunct2, THEN conjunct2, THEN conjunct2, THEN conjunct2, THEN conjunct1,
              THEN iffD1, OF no_match_example]
  note 4 = n [THEN conjunct2, THEN conjunct2, THEN conjunct2, THEN conjunct2, THEN conjunct2,
              THEN mp, OF 3]
  show ?thesis
    by (intro conjI) (rule catalog_url_example_track 1 catalog_url_example_artist 2 3 4)+
qed

lemma send_log: "log (snd (send w rq)) = log w @ [rq]"
  by (simp add: send_def split: list.splits)




lemma SpotifyTrack_init_sample: "SpotifyTrack_init (sample_track i n) = Inr (sample_built i n)"
  by (simp add: SpotifyTrack_init_def sample_track_def sample_built_def bind_e_def)







lemma ensure_token_fresh:
  "ensure_token (SpotifyClient_init cid sec) (sample_world (sample_grant # rs))
   = (Inr (),
      \<lparr>client_id = cid, client_secret = sec, bearer_token = JStr ''tok'', expiry = 4590\<rparr>,
      \<lparr>script = rs,
        log = [\<lparr>req_method = POST, req_url = GRANTURL, req_auth = Basic cid sec\<rparr>],
        clock = (\<lambda>n. 1000 + real n), ticks = 1,
          fround = (\<lambda>x. x)\<rparr>)"
  by (simp add: ensure_token_def SpotifyClient_init_def get_bearer_token_def send_def
        sample_world_def sample_grant_def ok_response_def time_time_def grant_headers_def bind_e_def
        float_add_int_def float_of_int_def)


text \<open>
  Claim C10. A search with type \<open>track\<close> whose catalog response has status 200, declares
  the type \<^verbatim>\<open>track\<close> and builds a track makes the resolver return that one track, not
  a list. With \<^verbatim>\<open>return_first\<close> the search then indexes the track and fails with a
  \<^verbatim>\<open>TypeError\<close>; without it the caller gets the bare track.
\<close>

theorem search_track_single:
  assumes "ensure_token sc w = (Inr u, sc1, w0)"
    and "send w0 \<lparr>req_method = GET, req_url = search_url query track,
                   req_auth = bearer_headers sc1\<rparr> = (Inr resp, w1)"
    and "status resp = 200"
    and "subscript (body resp) ''type'' = Inr (JStr ''track'')"
    and "SpotifyTrack_init (body resp) = Inr t"
  shows "search_client sc query track False w = (Inr (Single t), sc1, w1)
       \<and> SpotifyTrack_search sc query track True w = (Inl TypeError, sc1, w1)
       \<and> SpotifyTrack_search sc query track False w = (Inr (Result (Single t)), sc1, w1)"
proof -
  have p: "search_payload (bearer_headers sc1) False (body resp) w1 = (Inr (Single t), w1)"
    using assms(4,5) by (simp add: search_payload_def bind_e_def)
  have s: "search_client sc query track False w = (Inr (Single t), sc1, w1)"
    using assms(1,2,3) p by (simp add: search_client_def)
  show ?thesis using s by (simp add: SpotifyTrack_search_def)
qed

theorem search_track_single_witness:
  "ensure_token (SpotifyClient_init ''id'' ''secret'')
      (sample_world [sample_grant, ok_response (sample_track ''6BDLcvvtyJD2vnXRDi1IjQ'' ''Song'')])
     = (Inr (),
        \<lparr>client_id = ''id'', client_secret = ''secret'', bearer_token = JStr ''tok'', expiry = 4590\<rparr>,
        \<lparr>script = [ok_response (sample_track ''6BDLcvvtyJD2vnXRDi1IjQ'' ''Song'')],
          log = [\<lparr>req_method = POST, req_url = GRANTURL, req_auth = Basic ''id'' ''secret''\<rparr>],
          clock = (\<lambda>n. 1000 + real n), ticks = 1,
          fround = (\<lambda>x. x)\<rparr>)
   \<and> status (ok_response (sample_track ''6BDLcvvtyJD2vnXRDi1IjQ'' ''Song'')) = 200
   \<and> subscript (body (ok_response (sample_track ''6BDLcvvtyJD2vnXRDi1IjQ'' ''Song''))) ''type''
       = Inr (JStr ''track'')
   \<and> fst (SpotifyTrack_search (SpotifyClient_init ''id'' ''secret'') ''6BDLcvvtyJD2vnXRDi1IjQ'' track True
        (sample_world [sample_grant, ok_response (sample_track ''6BDLcvvtyJD2vnXRDi1IjQ'' ''Song'')]))
       = Inl TypeError
   \<and> fst (SpotifyTrack_search (SpotifyClient_init ''id'' ''secret'') ''6BDLcvvtyJD2vnXRDi1IjQ'' track False
        (sample_world [sample_grant, ok_response (sample_track ''6BDLcvvtyJD2vnXRDi1IjQ'' ''Song'')]))
       = Inr (Result (Single (sample_built ''6BDLcvvtyJD2vnXRDi1IjQ'' ''Song'')))"
proof -
  let ?resp = "ok_response (sample_track ''6BDLcvvtyJD2vnXRDi1IjQ'' ''Song'')"
  let ?sc1 = "\<lparr>client_id = ''id'', client_secret = ''secret'', bearer_token = JStr ''tok'', expiry = 4590\<rparr>"
  let ?w0 = "\<lparr>script = [?resp],
          log = [\<lparr>req_method = POST, req_url = GRANTURL, req_auth = Basic ''id'' ''secret''\<rparr>],
          clock = (\<lambda>n. 1000 + real n), ticks = 1,
          fround = (\<lambda>x. x)\<rparr>"
  have 1: "ensure_token (SpotifyClient_init ''id'' ''secret'') (sample_world [sample_grant, ?resp])
      = (Inr (), ?sc1, ?w0)"
    by (rule ensure_token_fresh)
  have 2: "send ?w0 \<lparr>req_method = GET, req_url = search_url ''6BDLcvvtyJD2vnXRDi1IjQ'' track,
                   req_auth = bearer_headers ?sc1\<rparr>
      = (Inr ?resp, ?w0\<lparr>script := [], log := log ?w0 @ [\<lparr>req_method = GET,
            req_url = search_url ''6BDLcvvtyJD2vnXRDi1IjQ'' track, req_auth = bearer_headers ?sc1\<rparr>]\<rparr>)"
    by (simp add: send_def)
  have 3: "status ?resp = 200" by (simp add: ok_response_def)
  have 4: "subscript (body ?resp) ''type'' = Inr (JStr ''track'')"
    by (simp add: ok_response_def sample_track_def)
  have 5: "SpotifyTrack_init (body ?resp) = Inr (sample_built ''6BDLcvvtyJD2vnXRDi1IjQ'' ''Song'')"
    by (simp add: ok_response_def SpotifyTrack_init_sample)
  note r = search_track_single [OF 1 2 3 4 5]
  have 6: "fst (SpotifyTrack_search (SpotifyClient_init ''id'' ''secret'') ''6BDLcvvtyJD2vnXRDi1IjQ'' track True
        (sample_world [sample_grant, ?resp])) = Inl TypeError"
    using r [THEN conjunct2, THEN conjunct1] by simp
  have 7: "fst (SpotifyTrack_search (SpotifyClient_init ''id'' ''secret'') ''6BDLcvvtyJD2vnXRDi1IjQ'' track False
        (sample_world [sample_grant, ?resp]))
       = Inr (Result (Single (sample_built ''6BDLcvvtyJD2vnXRDi1IjQ'' ''Song'')))"
    using r [THEN conjunct2, THEN conjunct2] by simp
  show ?thesis by (intro conjI) (rule 1 3 4 6 7)+
qed

lemma push_seed_length: "length seeds \<le> 5 \<Longrightarrow> length (push_seed seeds i) \<le> 5"
  by (cases seeds) (auto simp: push_seed_def)

lemma fulfill_seeds_cases:
  "track_seeds (fst (snd (fulfill self player cls populate w))) = track_seeds player
   \<or> track_seeds (fst (snd (fulfill self player cls populate w)))
       = push_seed (track_seeds player) (track_id self)"
  by (auto simp: fulfill_def Let_def split: sum.splits option.splits prod.splits)

lemma fulfill_seeds_bounded:
  assumes "length (track_seeds player) \<le> 5"
  shows "length (track_seeds (fst (snd (fulfill self player cls populate w)))) \<le> 5"
  using fulfill_seeds_cases[of self player cls populate w] assms push_seed_length
  by metis

lemma fulfill_many_bounded:
  "length (track_seeds player) \<le> 5
   \<Longrightarrow> length (track_seeds (fst (fulfill_many calls cls player w))) \<le> 5"
proof (induction calls arbitrary: player w)
  case Nil
  then show ?case by simp
next
  case (Cons c calls)
  obtain t populate where c: "c = (t, populate)" by (cases c)
  obtain r p1 w1 where f: "fulfill t player cls populate w = (r, p1, w1)"
    by (cases "fulfill t player cls populate w")
  from fulfill_seeds_bounded[OF Cons.prems, of t cls populate w] f
  have "length (track_seeds p1) \<le> 5" by simp
  from Cons.IH[OF this] show ?case using c f by simp
qed

lemma fulfill_pushes:
  assumes "resolve cls self = Inr tracks" "autoplay player" "populate" "spotify player = Some sc"
  shows "track_seeds (fst (snd (fulfill self player cls populate w)))
         = push_seed (track_seeds player) (track_id self)"
  using assms by (auto simp: fulfill_def Let_def split: sum.splits prod.splits option.splits)

text \<open>
  Claim C6. A seed window of at most five ids stays at most five ids over a fulfilment
  call, whatever the call does, and so over any sequence of calls that starts from the
  empty window. A call that gets as far as the seed list (the playable was resolved,
  autoplay and \<^verbatim>\<open>populate\<close> are on, the node has a client) leaves the window as
  \<open>push_seed\<close> makes it: a window of five loses its first entry before the id of the
  source track is added at the end, a shorter one only gets the id at the end.
\<close>

theorem seed_window_bounded:
  "(length (track_seeds player) \<le> 5
      \<longrightarrow> length (track_seeds (fst (snd (fulfill self player cls populate w)))) \<le> 5)
   \<and> (track_seeds player = []
      \<longrightarrow> length (track_seeds (fst (fulfill_many calls cls player w))) \<le> 5)
   \<and> (resolve cls self = Inr tracks \<and> autoplay player \<and> populate \<and> spotify player = Some sc
      \<longrightarrow> track_seeds (fst (snd (fulfill self player cls populate w)))
           = push_seed (track_seeds player) (track_id self))
   \<and> (length seeds = 5 \<longrightarrow> push_seed seeds i = tl seeds @ [i] \<and> length (push_seed seeds i) = 5)
   \<and> (length seeds < 5 \<longrightarrow> push_seed seeds i = seeds @ [i])"
proof (intro conjI impI)
  assume "length (track_seeds player) \<le> 5"
  then show "length (track_seeds (fst (snd (fulfill self player cls populate w)))) \<le> 5"
    by (rule fulfill_seeds_bounded)
next
  assume "track_seeds player = []"
  then have "length (track_seeds player) \<le> 5" by simp
  then show "length (track_seeds (fst (fulfill_many calls cls player w))) \<le> 5"
    by (rule fulfill_many_bounded)
next
  assume "resolve cls self = Inr tracks \<and> autoplay player \<and> populate \<and> spotify player = Some sc"
  then show "track_seeds (fst (snd (fulfill self player cls populate w)))
           = push_seed (track_seeds player) (track_id self)"
    using fulfill_pushes by blast
next
  assume "length seeds = 5"
  then show "push_seed seeds i = tl seeds @ [i]" by (simp add: push_seed_def)
next
  assume "length seeds = 5"
  then show "length (push_seed seeds i) = 5" by (simp add: push_seed_def)
next
  assume "length seeds < 5"
  then show "push_seed seeds i = seeds @ [i]" by (simp add: push_seed_def)
qed

lemma resolve_found_one: "resolve found_one t = Inr [0]"
  by (simp add: resolve_def found_one_def)

theorem seed_window_bounded_witness:
  "length (track_seeds (sample_player [JStr ''a'', JStr ''b'', JStr ''c'', JStr ''d'', JStr ''e'']
                          (Some sample_client))) \<le> 5
   \<and> track_seeds (fst (snd (fulfill (sample_built ''f'' ''F'')
         (sample_player [JStr ''a'', JStr ''b'', JStr ''c'', JStr ''d'', JStr ''e''] (Some sample_client))
         found_one True (sample_world []))))
       = [JStr ''b'', JStr ''c'', JStr ''d'', JStr ''e'', JStr ''f'']
   \<and> track_seeds (sample_player [] (Some sample_client)) = []
   \<and> length (track_seeds (fst (fulfill_many
         [(sample_built ''a'' ''A'', True), (sample_built ''b'' ''B'', True),
          (sample_built ''c'' ''C'', True), (sample_built ''d'' ''D'', True),
          (sample_built ''e'' ''E'', True), (sample_built ''f'' ''F'', True)]
         found_one (sample_player [] (Some sample_client)) (sample_world [])))) \<le> 5"
proof -
  let ?p = "sample_player [JStr ''a'', JStr ''b'', JStr ''c'', JStr ''d'', JStr ''e''] (Some sample_client)"
  note a = seed_window_bounded [of ?p "sample_built ''f'' ''F''" found_one True "sample_world []"
      _ "[0]" sample_client "track_seeds ?p" "JStr ''f''"]
  have h1: "length (track_seeds ?p) \<le> 5" by (simp add: sample_player_def)
  have h3: "resolve found_one (sample_built ''f'' ''F'') = Inr [0] \<and> autoplay ?p \<and> True
            \<and> spotify ?p = Some sample_client"
    by (simp add: resolve_found_one sample_player_def)
  have h4: "length (track_seeds ?p) = 5" by (simp add: sample_player_def)
  have 2: "track_seeds (fst (snd (fulfill (sample_built ''f'' ''F'') ?p found_one True (sample_world []))))
       = [JStr ''b'', JStr ''c'', JStr ''d'', JStr ''e'', JStr ''f'']"
    using a [THEN conjunct2, THEN conjunct2, THEN conjunct1, THEN mp, OF h3]
          a [THEN conjunct2, THEN conjunct2, THEN conjunct2, THEN conjunct1, THEN mp, OF h4]
    by (simp add: sample_player_def sample_built_def)
  note b = seed_window_bounded [of "sample_player [] (Some sample_client)" _ found_one _ "sample_world []"
         "[(sample_built ''a'' ''A'', True), (sample_built ''b'' ''B'', True),
          (sample_built ''c'' ''C'', True), (sample_built ''d'' ''D'', True),
          (sample_built ''e'' ''E'', True), (sample_built ''f'' ''F'', True)]"]
  have h2: "track_seeds (sample_player [] (Some sample_client)) = []" by (simp add: sample_player_def)
  note 4 = b [THEN conjunct2, THEN conjunct1, THEN mp, OF h2]
  show ?thesis by (intro conjI) (rule h1 2 h2 4)+
qed

lemma fulfill_no_populate:
  assumes "\<not> autoplay player \<or> \<not> populate"
  shows "log (snd (snd (fulfill self player cls populate w))) = log w
       \<and> fst (snd (fulfill self player cls populate w)) = player"
  using assms by (auto simp: fulfill_def split: sum.splits)

lemma fulfill_one_request:
  assumes "autoplay player" "populate" "resolve cls self = Inr tracks" "spotify player = Some sc"
    and "py_join '','' (push_seed (track_seeds player) (track_id self)) = Inr joined"
  shows "log (snd (snd (fulfill self player cls populate w)))
         = log w @ [\<lparr>req_method = GET, req_url = RECURL joined, req_auth = bearer_headers sc\<rparr>]"
proof -
  let ?rq = "\<lparr>req_method = GET, req_url = RECURL joined, req_auth = bearer_headers sc\<rparr>"
  obtain r w1 where s: "send w ?rq = (r, w1)" by (cases "send w ?rq")
  with send_log[of w ?rq] have l: "log w1 = log w @ [?rq]" by simp
  show ?thesis using assms s l
    by (auto simp: fulfill_def Let_def split: sum.splits prod.splits option.splits)
qed

text \<open>
  Claim C7, as amended. A fulfilment call with \<^verbatim>\<open>populate\<close> false or autoplay off makes no
  request and leaves the session, the seed window included, as it was. A call with both
  on, whose playable was resolved, whose node has a client and whose seed ids are all
  strings, makes exactly one request, a GET of the recommendations URL over the joined
  window, and adds exactly one id, that of the source track, at the end of the window.
\<close>

theorem fulfill_effects:
  "(\<not> autoplay player \<or> \<not> populate
      \<longrightarrow> log (snd (snd (fulfill self player cls populate w))) = log w
          \<and> fst (snd (fulfill self player cls populate w)) = player)
   \<and> (autoplay player \<and> populate \<and> resolve cls self = Inr tracks \<and> spotify player = Some sc
        \<and> py_join '','' (push_seed (track_seeds player) (track_id self)) = Inr joined
      \<longrightarrow> log (snd (snd (fulfill self player cls populate w)))
             = log w @ [\<lparr>req_method = GET, req_url = RECURL joined, req_auth = bearer_headers sc\<rparr>]
          \<and> track_seeds (fst (snd (fulfill self player cls populate w)))
             = push_seed (track_seeds player) (track_id self)
          \<and> (\<exists>kept. push_seed (track_seeds player) (track_id self) = kept @ [track_id self]))"
proof (intro conjI impI)
  assume "\<not> autoplay player \<or> \<not> populate"
  from fulfill_no_populate[OF this, of self cls w]
  show "log (snd (snd (fulfill self player cls populate w))) = log w"
    and "fst (snd (fulfill self player cls populate w)) = player"
    by simp_all
next
  assume a: "autoplay player \<and> populate \<and> resolve cls self = Inr tracks \<and> spotify player = Some sc
        \<and> py_join '','' (push_seed (track_seeds player) (track_id self)) = Inr joined"
  then show "log (snd (snd (fulfill self player cls populate w)))
             = log w @ [\<lparr>req_method = GET, req_url = RECURL joined, req_auth = bearer_headers sc\<rparr>]"
    using fulfill_one_request by blast
  from a show "track_seeds (fst (snd (fulfill self player cls populate w)))
             = push_seed (track_seeds player) (track_id self)"
    using fulfill_pushes by blast
  show "\<exists>kept. push_seed (track_seeds player) (track_id self) = kept @ [track_id self]"
    by (simp add: push_seed_def)
qed

theorem fulfill_effects_witness:
  "log (snd (snd (fulfill (sample_built ''f'' ''F'') (sample_player [JStr ''a''] (Some sample_client))
                       found_one False (sample_world [])))) = []
   \<and> fst (snd (fulfill (sample_built ''f'' ''F'') (sample_player [JStr ''a''] (Some sample_client))
                       found_one False (sample_world [])))
       = sample_player [JStr ''a''] (Some sample_client)
   \<and> py_join '','' (push_seed (track_seeds (sample_player [JStr ''a''] (Some sample_client)))
                       (track_id (sample_built ''f'' ''F''))) = Inr ''a,f''
   \<and> log (snd (snd (fulfill (sample_built ''f'' ''F'') (sample_player [JStr ''a''] (Some sample_client))
                       found_one True (sample_world []))))
       = [\<lparr>req_method = GET, req_url = RECURL ''a,f'', req_auth = Bearer (JStr ''tok'')\<rparr>]
   \<and> track_seeds (fst (snd (fulfill (sample_built ''f'' ''F'')
                       (sample_player [JStr ''a''] (Some sample_client)) found_one True (sample_world []))))
       = [JStr ''a'', JStr ''f'']"
proof -
  let ?p = "sample_player [JStr ''a''] (Some sample_client)"
  let ?t = "sample_built ''f'' ''F''"
  note n = fulfill_effects [of ?p False ?t found_one "sample_world []"]
  note y = fulfill_effects [of ?p True ?t found_one "sample_world []" "[0]" sample_client "''a,f''"]
  have h0: "\<not> autoplay ?p \<or> \<not> False" by simp
  have j: "py_join '','' (push_seed (track_seeds ?p) (track_id ?t)) = Inr ''a,f''"
    by (simp add: py_join_def push_seed_def sample_player_def sample_built_def bind_e_def)
  have h1: "autoplay ?p \<and> True \<and> resolve found_one ?t = Inr [0] \<and> spotify ?p = Some sample_client
      \<and> py_join '','' (push_seed (track_seeds ?p) (track_id ?t)) = Inr ''a,f''"
    using j by (simp add: resolve_found_one sample_player_def)
  note n1 = n [THEN conjunct1, THEN mp, OF h0]
  note y1 = y [THEN conjunct2, THEN mp, OF h1]
  have 1: "log (snd (snd (fulfill ?t ?p found_one False (sample_world [])))) = []"
    using n1 [THEN conjunct1] by (simp add: sample_world_def)
  have 2: "log (snd (snd (fulfill ?t ?p found_one True (sample_world []))))
       = [\<lparr>req_method = GET, req_url = RECURL ''a,f'', req_auth = Bearer (JStr ''tok'')\<rparr>]"
    using y1 [THEN conjunct1] by (simp add: sample_world_def bearer_headers_def sample_client_def)
  have 3: "track_seeds (fst (snd (fulfill ?t ?p found_one True (sample_world [])))) = [JStr ''a'', JStr ''f'']"
    using y1 [THEN conjunct2, THEN conjunct1]
    by (simp add: push_seed_def sample_player_def sample_built_def)
  show ?thesis by (intro conjI) (rule 1 n1 [THEN conjunct2] j 2 3)+
qed

text \<open>
  Claim C7 as it is stated fails on the code: with autoplay and \<^verbatim>\<open>populate\<close> both on, a
  call on a node without a client, and a call whose playable search raises, make no
  request and leave the window alone; a call for a track whose id is \<^verbatim>\<open>None\<close> adds the
  id and raises in \<^verbatim>\<open>join\<close> before any request.
\<close>

theorem fulfill_populate_counterexample:
  "autoplay (sample_player [] None)
   \<and> log (snd (snd (fulfill (sample_built ''f'' ''F'') (sample_player [] None) found_one True
                       (sample_world [])))) = []
   \<and> track_seeds (fst (snd (fulfill (sample_built ''f'' ''F'') (sample_player [] None) found_one True
                       (sample_world [])))) = []
   \<and> autoplay (sample_player [] (Some sample_client))
   \<and> log (snd (snd (fulfill (sample_built ''f'' ''F'') (sample_player [] (Some sample_client))
                       search_fails True (sample_world [])))) = []
   \<and> track_seeds (fst (snd (fulfill (sample_built ''f'' ''F'') (sample_player [] (Some sample_client))
                       search_fails True (sample_world [])))) = []
   \<and> log (snd (snd (fulfill local_track (sample_player [] (Some sample_client)) found_one True
                       (sample_world [])))) = []
   \<and> track_seeds (fst (snd (fulfill local_track (sample_player [] (Some sample_client)) found_one True
                       (sample_world [])))) = [JNull]"
  by (simp add: fulfill_def resolve_def found_one_def search_fails_def sample_player_def
        sample_world_def local_track_def sample_built_def push_seed_def py_join_def bind_e_def)

lemma contains_track_spotify:
  "contains_track (map Spotify xs) reco = Inr (\<exists>x \<in> set xs. SpotifyTrack_eq x reco)"
  by (induction xs) auto

lemma enqueue_recos_spotify:
  "enqueue_recos recos (map Spotify queue) (map Spotify history)
   = (None, map Spotify (queue @ recos))"
proof (induction recos arbitrary: queue)
  case Nil
  then show ?case by simp
next
  case (Cons reco recos)
  have a: "map Spotify queue @ [Spotify reco] = map Spotify (queue @ [reco])" by simp
  show ?case
    using Cons.IH[of "queue @ [reco]"]
    by (simp only: enqueue_recos.simps contains_track_spotify bind_e_def a sum.case if_cancel)
       simp
qed

lemma contains_track_other:
  "contains_track (map Spotify xs @ OtherPlayable # q) reco
   = (if \<exists>x \<in> set xs. SpotifyTrack_eq x reco then Inr True else Inl AttributeError)"
  by (induction xs) auto

lemma sample_recos_built:
  "bind_e (subscript (body sample_recos) ''tracks'') (\<lambda>v. bind_e (py_iter v) (map_e SpotifyTrack_init))
   = Inr [sample_built ''r1'' ''One'', sample_built ''r2'' ''Two'', sample_built ''r3'' ''Three'']"
  by (simp add: sample_recos_def ok_response_def bind_e_def SpotifyTrack_init_sample)

lemma sample_recos_sent:
  "send (sample_world [sample_recos])
     \<lparr>req_method = GET, req_url = RECURL ''f'', req_auth = bearer_headers sample_client\<rparr>
   = (Inr sample_recos,
      (sample_world [sample_recos])\<lparr>script := [],
         log := [\<lparr>req_method = GET, req_url = RECURL ''f'',
                  req_auth = bearer_headers sample_client\<rparr>]\<rparr>)"
  by (simp add: send_def sample_world_def)

text \<open>
  Claim C8. The claim holds on a queue and a history of tracks of this module: the call
  on \<open>busy_player\<close>, whose queue holds the first recommended track and whose history holds
  the second, puts all three recommended tracks at the end of the queue, the first a
  second time. It fails where the queue holds another playable: the call on
  \<open>mixed_player\<close> makes the request, builds the three tracks, and raises \<^verbatim>\<open>AttributeError\<close>
  in the membership test of the first; none of the three is put in the queue.
\<close>

theorem recos_enqueue_raises:
  "SpotifyTrack_eq (sample_built ''r1'' ''One'') (sample_built ''r1'' ''One'')
   \<and> auto_queue busy_player = [Spotify (sample_built ''r1'' ''One'')]
   \<and> auto_queue_history busy_player = [Spotify (sample_built ''r2'' ''Two'')]
   \<and> auto_queue (fst (snd (fulfill (sample_built ''f'' ''F'') busy_player found_one True
                              (sample_world [sample_recos]))))
       = [Spotify (sample_built ''r1'' ''One''), Spotify (sample_built ''r1'' ''One''),
          Spotify (sample_built ''r2'' ''Two''), Spotify (sample_built ''r3'' ''Three'')]
   \<and> auto_queue mixed_player = [OtherPlayable]
   \<and> fst (fulfill (sample_built ''f'' ''F'') mixed_player found_one True
             (sample_world [sample_recos])) = (Inl AttributeError :: error + nat)
   \<and> auto_queue (fst (snd (fulfill (sample_built ''f'' ''F'') mixed_player found_one True
                              (sample_world [sample_recos])))) = [OtherPlayable]
   \<and> log (snd (snd (fulfill (sample_built ''f'' ''F'') mixed_player found_one True
                       (sample_world [sample_recos]))))
       = [\<lparr>req_method = GET, req_url = RECURL ''f'', req_auth = Bearer (JStr ''tok'')\<rparr>]"
proof -
  let ?t = "sample_built ''f'' ''F''"
  have e: "SpotifyTrack_eq (sample_built ''r1'' ''One'') (sample_built ''r1'' ''One'')"
    by (simp add: SpotifyTrack_eq_def sample_built_def)
  have q1: "auto_queue busy_player = [Spotify (sample_built ''r1'' ''One'')]"
    by (simp add: busy_player_def)
  have h1: "auto_queue_history busy_player = [Spotify (sample_built ''r2'' ''Two'')]"
    by (simp add: busy_player_def)
  have q2: "auto_queue mixed_player = [OtherPlayable]" by (simp add: mixed_player_def)
  have jb: "py_join '','' (push_seed (track_seeds busy_player) (track_id ?t)) = Inr ''f''"
    by (simp add: py_join_def push_seed_def busy_player_def sample_built_def bind_e_def)
  have jm: "py_join '','' (push_seed (track_seeds mixed_player) (track_id ?t)) = Inr ''f''"
    by (simp add: py_join_def push_seed_def mixed_player_def sample_built_def bind_e_def)
  have st: "status sample_recos = 200" by (simp add: sample_recos_def ok_response_def)
  have eb: "enqueue_recos [sample_built ''r1'' ''One'', sample_built ''r2'' ''Two'',
                           sample_built ''r3'' ''Three'']
              [Spotify (sample_built ''r1'' ''One'')] [Spotify (sample_built ''r2'' ''Two'')]
            = (None, [Spotify (sample_built ''r1'' ''One''), Spotify (sample_built ''r1'' ''One''),
                      Spotify (sample_built ''r2'' ''Two''), Spotify (sample_built ''r3'' ''Three'')])"
    using enqueue_recos_spotify[of "[sample_built ''r1'' ''One'', sample_built ''r2'' ''Two'',
                           sample_built ''r3'' ''Three'']" "[sample_built ''r1'' ''One'']"
                           "[sample_built ''r2'' ''Two'']"]
    by simp
  have em: "enqueue_recos [sample_built ''r1'' ''One'', sample_built ''r2'' ''Two'',
                           sample_built ''r3'' ''Three''] [OtherPlayable] []
            = (Some AttributeError, [OtherPlayable])"
    by (simp add: bind_e_def)
  have fb: "fulfill ?t busy_player found_one True (sample_world [sample_recos])
            = (Inr 0,
               busy_player\<lparr>track_seeds := [JStr ''f''],
                 auto_queue := [Spotify (sample_built ''r1'' ''One''), Spotify (sample_built ''r1'' ''One''),
                      Spotify (sample_built ''r2'' ''Two''), Spotify (sample_built ''r3'' ''Three'')]\<rparr>,
               (sample_world [sample_recos])\<lparr>script := [],
                 log := [\<lparr>req_method = GET, req_url = RECURL ''f'',
                          req_auth = bearer_headers sample_client\<rparr>]\<rparr>)"
    unfolding fulfill_def
    using jb sample_recos_sent st sample_recos_built eb
    by (simp add: resolve_found_one first_track_def busy_player_def push_seed_def sample_built_def)
  have fm: "fulfill ?t mixed_player found_one True (sample_world [sample_recos])
            = (Inl AttributeError,
               mixed_player\<lparr>track_seeds := [JStr ''f''], auto_queue := [OtherPlayable]\<rparr>,
               (sample_world [sample_recos])\<lparr>script := [],
                 log := [\<lparr>req_method = GET, req_url = RECURL ''f'',
                          req_auth = bearer_headers sample_client\<rparr>]\<rparr>)"
    unfolding fulfill_def
    using jm sample_recos_sent st sample_recos_built em
    by (simp add: resolve_found_one first_track_def mixed_player_def push_seed_def sample_built_def)
  have 4: "auto_queue (fst (snd (fulfill ?t busy_player found_one True (sample_world [sample_recos]))))
       = [Spotify (sample_built ''r1'' ''One''), Spotify (sample_built ''r1'' ''One''),
          Spotify (sample_built ''r2'' ''Two''), Spotify (sample_built ''r3'' ''Three'')]"
    by (simp add: fb)
  have 6: "fst (fulfill ?t mixed_player found_one True (sample_world [sample_recos]))
           = (Inl AttributeError :: error + nat)"
    by (simp add: fm)
  have 7: "auto_queue (fst (snd (fulfill ?t mixed_player found_one True (sample_world [sample_recos]))))
           = [OtherPlayable]"
    by (simp add: fm)
  have 8: "log (snd (snd (fulfill ?t mixed_player found_one True (sample_world [sample_recos]))))
       = [\<lparr>req_method = GET, req_url = RECURL ''f'', req_auth = Bearer (JStr ''tok'')\<rparr>]"
    by (simp add: fm bearer_headers_def sample_client_def)
  show ?thesis by (intro conjI) (rule e q1 h1 4 q2 6 7 8)+
qed

theorem recos_enqueue_raises_witness:
  "autoplay mixed_player
   \<and> spotify mixed_player = Some sample_client
   \<and> fst (fulfill (sample_built ''f'' ''F'') mixed_player found_one True
             (sample_world [sample_recos])) = (Inl AttributeError :: error + nat)
   \<and> auto_queue (fst (snd (fulfill (sample_built ''f'' ''F'') mixed_player found_one True
                              (sample_world [sample_recos])))) = auto_queue mixed_player"
proof -
  note r = recos_enqueue_raises [THEN conjunct2, THEN conjunct2, THEN conjunct2, THEN conjunct2]
  have 1: "autoplay mixed_player" by (simp add: mixed_player_def)
  have 2: "spotify mixed_player = Some sample_client" by (simp add: mixed_player_def)
  note 3 = r [THEN conjunct2, THEN conjunct1]
  have 4: "auto_queue (fst (snd (fulfill (sample_built ''f'' ''F'') mixed_player found_one True
                              (sample_world [sample_recos])))) = auto_queue mixed_player"
    using r [THEN conjunct1] r [THEN conjunct2, THEN conjunct2, THEN conjunct1] by simp
  show ?thesis by (intro conjI) (rule 1 2 3 4)+
qed

lemma get_json_url_gets:
  "\<exists>ms. log (snd (get_json_url w u a)) = log w @ ms \<and> (\<forall>rq \<in> set ms. req_method rq = GET)"
  by (cases u) (simp_all add: get_json_url_def send_log)

lemma playlist_pages_gets:
  "\<exists>ms. log (snd (playlist_pages a url items w)) = log w @ ms \<and> (\<forall>rq \<in> set ms. req_method rq = GET)"
proof (induction a url items w rule: playlist_pages.induct)
  case (1 a url items w)
  obtain r w1 where g: "get_json_url w url a = (r, w1)" by (cases "get_json_url w url a")
  from get_json_url_gets[of w url a] g obtain ms where
    ms: "log w1 = log w @ ms" "\<forall>rq \<in> set ms. req_method rq = GET" by auto
  show ?case
  proof (cases r)
    case (Inl e)
    then show ?thesis using g ms by (simp add: playlist_pages.simps)
  next
    case (Inr resp)
    show ?thesis
    proof (cases "bind_e (subscript (body resp) ''items'') item_tracks")
      case (Inl e)
      then show ?thesis using g ms Inr by (simp add: playlist_pages.simps)
    next
      case more: (Inr more_items)
      show ?thesis
      proof (cases "subscript (body resp) ''next''")
        case (Inl e)
        then show ?thesis using g ms Inr more by (simp add: playlist_pages.simps)
      next
        case nx: (Inr nxt)
        show ?thesis
        proof (cases "truthy nxt")
          case False
          then show ?thesis using g ms Inr more nx by (simp add: playlist_pages.simps)
        next
          case True
          from "1.IH"[OF g[symmetric] Inr more nx] True
          obtain ms2 where ms2: "log (snd (playlist_pages a nxt (items @ more_items) w1)) = log w1 @ ms2"
            "\<forall>rq \<in> set ms2. req_method rq = GET"
            by auto
          have "log (snd (playlist_pages a url items w)) = log w @ (ms @ ms2)"
            using g ms(1) Inr more nx True ms2(1)
            by (simp add: playlist_pages.simps[of a url items w])
          moreover have "\<forall>rq \<in> set (ms @ ms2). req_method rq = GET" using ms(2) ms2(2) by auto
          ultimately show ?thesis by blast
        qed
      qed
    qed
  qed
qed

lemma search_payload_gets:
  "\<exists>ms. log (snd (search_payload a it data w)) = log w @ ms \<and> (\<forall>rq \<in> set ms. req_method rq = GET)"
proof -
  have p: "\<And>nxt items. \<exists>ms. log (snd (case playlist_pages a nxt items w of
             (Inl e, w1) \<Rightarrow> (Inl e, w1)
           | (Inr all_items, w1) \<Rightarrow> (Inr (RawItems all_items), w1))) = log w @ ms
           \<and> (\<forall>rq \<in> set ms. req_method rq = GET)"
  proof -
    fix nxt items
    obtain r w1 where g: "playlist_pages a nxt items w = (r, w1)" by (cases "playlist_pages a nxt items w")
    with playlist_pages_gets[of a nxt items w] show "\<exists>ms. log (snd (case playlist_pages a nxt items w of
             (Inl e, w1) \<Rightarrow> (Inl e, w1)
           | (Inr all_items, w1) \<Rightarrow> (Inr (RawItems all_items), w1))) = log w @ ms
           \<and> (\<forall>rq \<in> set ms. req_method rq = GET)"
      by (cases r) auto
  qed
  have e: "\<exists>ms. log w = log w @ ms \<and> (\<forall>rq \<in> set ms. req_method rq = GET)" by simp
  show ?thesis
    unfolding search_payload_def
    using p e by (auto split: sum.splits)
qed

lemma search_client_gets:
  assumes "ensure_token self w = (Inr u, self1, w1)"
  shows "\<exists>ms. log (snd (snd (search_client self query ty it w)))
           = log w1 @ \<lparr>req_method = GET, req_url = search_url query ty,
                        req_auth = bearer_headers self1\<rparr> # ms
         \<and> (\<forall>rq \<in> set ms. req_method rq = GET)"
proof -
  let ?rq = "\<lparr>req_method = GET, req_url = search_url query ty, req_auth = bearer_headers self1\<rparr>"
  obtain r w2 where s: "send w1 ?rq = (r, w2)" by (cases "send w1 ?rq")
  with send_log[of w1 ?rq] have l: "log w2 = log w1 @ [?rq]" by simp
  show ?thesis
  proof (cases r)
    case (Inl e)
    then show ?thesis using assms s l by (simp add: search_client_def)
  next
    case (Inr resp)
    show ?thesis
    proof (cases "status resp = 200")
      case False
      then show ?thesis using assms s l Inr by (simp add: search_client_def)
    next
      case True
      obtain r3 w3 where p: "search_payload (bearer_headers self1) it (body resp) w2 = (r3, w3)"
        by (cases "search_payload (bearer_headers self1) it (body resp) w2")
      with search_payload_gets[of "bearer_headers self1" it "body resp" w2]
      obtain ms where "log w3 = log w2 @ ms" "\<forall>rq \<in> set ms. req_method rq = GET" by auto
      then show ?thesis using assms s l Inr True p by (simp add: search_client_def)
    qed
  qed
qed

lemma search_client_token_error:
  assumes "ensure_token self w = (Inl e, self1, w1)"
  shows "search_client self query ty it w = (Inl e, self1, w1)"
  using assms by (simp add: search_client_def)

lemma get_bearer_token_log:
  "log (snd (snd (get_bearer_token self w)))
   = log w @ [\<lparr>req_method = POST, req_url = GRANTURL, req_auth = grant_headers self\<rparr>]"
proof -
  let ?rq = "\<lparr>req_method = POST, req_url = GRANTURL, req_auth = grant_headers self\<rparr>"
  obtain r w1 where s: "send w ?rq = (r, w1)" by (cases "send w ?rq")
  with send_log[of w ?rq] have l: "log w1 = log w @ [?rq]" by simp
  show ?thesis using s l
    by (auto simp: get_bearer_token_def time_time_def Let_def split: sum.splits)
qed

lemma get_bearer_token_ok:
  assumes "send w \<lparr>req_method = POST, req_url = GRANTURL, req_auth = grant_headers self\<rparr> = (Inr resp, w1)"
    and "status resp = 200"
    and "subscript (body resp) ''access_token'' = Inr tok"
    and "subscript (body resp) ''expires_in'' = Inr (JNum n)"
    and "\<bar>n - 10\<bar> < 2 ^ 1024 - 2 ^ 970"
  shows "get_bearer_token self w
         = (Inr (),
            self\<lparr>bearer_token := tok,
                 expiry := fround w1 (clock w1 (ticks w1) + fround w1 (of_int (n - 10)))\<rparr>,
            w1\<lparr>ticks := Suc (ticks w1)\<rparr>)"
  using assms
  by (simp add: get_bearer_token_def time_time_def bind_e_def float_add_int_def float_of_int_def)

lemma get_bearer_token_overflow:
  assumes "send w \<lparr>req_method = POST, req_url = GRANTURL, req_auth = grant_headers self\<rparr> = (Inr resp, w1)"
    and "status resp = 200"
    and "subscript (body resp) ''access_token'' = Inr tok"
    and "subscript (body resp) ''expires_in'' = Inr (JNum n)"
    and "\<bar>n - 10\<bar> \<ge> 2 ^ 1024 - 2 ^ 970"
  shows "get_bearer_token self w
         = (Inl OverflowError, self\<lparr>bearer_token := tok\<rparr>, w1\<lparr>ticks := Suc (ticks w1)\<rparr>)"
  using assms
  by (simp add: get_bearer_token_def time_time_def bind_e_def float_add_int_def float_of_int_def)

lemma ensure_token_cached:
  assumes "truthy (bearer_token self)" "clock w (ticks w) < expiry self"
  shows "ensure_token self w = (Inr (), self, w\<lparr>ticks := Suc (ticks w)\<rparr>)"
  using assms by (simp add: ensure_token_def time_time_def)

lemma ensure_token_refresh_log:
  assumes "\<not> truthy (bearer_token self) \<or> expiry self \<le> clock w (ticks w)"
  shows "log (snd (snd (ensure_token self w)))
         = log w @ [\<lparr>req_method = POST, req_url = GRANTURL, req_auth = grant_headers self\<rparr>]"
proof (cases "truthy (bearer_token self)")
  case False
  then show ?thesis by (simp add: ensure_token_def get_bearer_token_log)
next
  case True
  with assms have "expiry self \<le> clock w (ticks w)" by simp
  then show ?thesis
    using True get_bearer_token_log[of self "w\<lparr>ticks := Suc (ticks w)\<rparr>"]
    by (simp add: ensure_token_def time_time_def)
qed

lemma search_client_self:
  assumes "ensure_token self w = (r, self1, w1)"
  shows "fst (snd (search_client self query ty it w)) = self1"
  using assms by (cases r) (auto simp: search_client_def split: prod.splits sum.splits)

lemma search_cached:
  assumes "truthy (bearer_token self)" "clock w (ticks w) < expiry self"
  shows "(\<exists>ms. log (snd (snd (search_client self query ty it w)))
            = log w @ \<lparr>req_method = GET, req_url = search_url query ty,
                        req_auth = Bearer (bearer_token self)\<rparr> # ms
          \<and> (\<forall>rq \<in> set ms. req_method rq = GET))
       \<and> fst (snd (search_client self query ty it w)) = self"
proof -
  note e = ensure_token_cached[OF assms]
  from search_client_gets[OF e, of query ty it] search_client_self[OF e, of query ty it]
  show ?thesis by (simp add: bearer_headers_def)
qed

lemma search_refresh:
  assumes "\<not> truthy (bearer_token self) \<or> expiry self \<le> clock w (ticks w)"
  shows "\<exists>ms. log (snd (snd (search_client self query ty it w)))
            = log w @ \<lparr>req_method = POST, req_url = GRANTURL, req_auth = grant_headers self\<rparr> # ms
          \<and> (\<forall>rq \<in> set ms. req_method rq = GET)
          \<and> (\<forall>u self1 w1. ensure_token self w = (Inr u, self1, w1) \<longrightarrow>
                (\<exists>ms'. ms = \<lparr>req_method = GET, req_url = search_url query ty,
                               req_auth = bearer_headers self1\<rparr> # ms'))"
proof -
  let ?post = "\<lparr>req_method = POST, req_url = GRANTURL, req_auth = grant_headers self\<rparr>"
  obtain r self1 w1 where e: "ensure_token self w = (r, self1, w1)"
    by (cases "ensure_token self w") auto
  from ensure_token_refresh_log[OF assms] e have l: "log w1 = log w @ [?post]" by simp
  show ?thesis
  proof (cases r)
    case (Inl err)
    with e have "search_client self query ty it w = (Inl err, self1, w1)"
      using search_client_token_error by simp
    then have "log (snd (snd (search_client self query ty it w))) = log w @ ?post # []"
      using l by simp
    moreover have "\<forall>rq \<in> set []. req_method rq = GET" by simp
    moreover have "\<forall>u self1 w1. ensure_token self w = (Inr u, self1, w1) \<longrightarrow>
                (\<exists>ms'. [] = \<lparr>req_method = GET, req_url = search_url query ty,
                               req_auth = bearer_headers self1\<rparr> # ms')"
      using e Inl by simp
    ultimately show ?thesis by blast
  next
    case (Inr u)
    with e have e': "ensure_token self w = (Inr u, self1, w1)" by simp
    from search_client_gets[OF e', of query ty it] obtain ms where
      ms: "log (snd (snd (search_client self query ty it w)))
           = log w1 @ \<lparr>req_method = GET, req_url = search_url query ty,
                        req_auth = bearer_headers self1\<rparr> # ms"
          "\<forall>rq \<in> set ms. req_method rq = GET"
      by blast
    let ?get = "\<lparr>req_method = GET, req_url = search_url query ty, req_auth = bearer_headers self1\<rparr>"
    have 1: "log (snd (snd (search_client self query ty it w))) = log w @ ?post # (?get # ms)"
      using ms(1) l by simp
    have 2: "\<forall>rq \<in> set (?get # ms). req_method rq = GET" using ms(2) by simp
    have 3: "\<forall>u self1' w1'. ensure_token self w = (Inr u, self1', w1') \<longrightarrow>
                (\<exists>ms'. ?get # ms = \<lparr>req_method = GET, req_url = search_url query ty,
                               req_auth = bearer_headers self1'\<rparr> # ms')"
      using e' by simp
    from 1 2 3 show ?thesis by blast
  qed
qed

text \<open>
  Claim C1 as it is stated fails on the code: a grant answered with status 200, a token
  and the lifetime \<open>10 ^ 400\<close> stores the token and raises \<^verbatim>\<open>OverflowError\<close> in the sum of
  the grant time and the lifetime less ten; the expiry stays what it was, here 0, not the
  grant time plus the lifetime less ten.
\<close>

theorem token_expiry_counterexample:
  "status huge_grant = 200
   \<and> subscript (body huge_grant) ''expires_in'' = Inr (JNum (10 ^ 400))
   \<and> fst (get_bearer_token (SpotifyClient_init ''id'' ''secret'') (sample_world [huge_grant]))
       = Inl OverflowError
   \<and> bearer_token (fst (snd (get_bearer_token (SpotifyClient_init ''id'' ''secret'')
                                (sample_world [huge_grant])))) = JStr ''tok''
   \<and> expiry (fst (snd (get_bearer_token (SpotifyClient_init ''id'' ''secret'')
                          (sample_world [huge_grant])))) = 0
   \<and> expiry (fst (snd (get_bearer_token (SpotifyClient_init ''id'' ''secret'')
                          (sample_world [huge_grant])))) \<noteq> 1000 + (10 ^ 400 - 10)"
proof -
  have b: "(2::int) ^ 1024 - 2 ^ 970 \<le> \<bar>10 ^ 400 - 10\<bar>" by simp
  have g: "get_bearer_token (SpotifyClient_init ''id'' ''secret'') (sample_world [huge_grant])
           = (Inl OverflowError, (SpotifyClient_init ''id'' ''secret'')\<lparr>bearer_token := JStr ''tok''\<rparr>,
              \<lparr>script = [], log = [\<lparr>req_method = POST, req_url = GRANTURL,
                   req_auth = grant_headers (SpotifyClient_init ''id'' ''secret'')\<rparr>],
                clock = (\<lambda>n. 1000 + real n), ticks = 1, fround = (\<lambda>x. x)\<rparr>)"
    using b
    by (simp add: get_bearer_token_def send_def sample_world_def huge_grant_def ok_response_def
          time_time_def bind_e_def float_add_int_def float_of_int_def)
  have 1: "status huge_grant = 200" by (simp add: huge_grant_def ok_response_def)
  have 2: "subscript (body huge_grant) ''expires_in'' = Inr (JNum (10 ^ 400))"
    by (simp add: huge_grant_def ok_response_def)
  have 3: "fst (get_bearer_token (SpotifyClient_init ''id'' ''secret'') (sample_world [huge_grant]))
       = Inl OverflowError"
    unfolding g by simp
  have 4: "bearer_token (fst (snd (get_bearer_token (SpotifyClient_init ''id'' ''secret'')
                                (sample_world [huge_grant])))) = JStr ''tok''"
    unfolding g by simp
  have 5: "expiry (fst (snd (get_bearer_token (SpotifyClient_init ''id'' ''secret'')
                          (sample_world [huge_grant])))) = 0"
    unfolding g by (simp add: SpotifyClient_init_def)
  have 6: "expiry (fst (snd (get_bearer_token (SpotifyClient_init ''id'' ''secret'')
                          (sample_world [huge_grant])))) \<noteq> 1000 + (10 ^ 400 - 10)"
    unfolding 5 by simp
  show ?thesis by (intro conjI) (rule 1 2 3 4 5 6)+
qed

text \<open>
  Claim C1, as amended. A grant answered with status 200, a token and \<^verbatim>\<open>expires_in\<close> \<open>n\<close>
  stores the token. When \<open>n - 10\<close> is within the range of the floats, the expiry is set to
  the float sum of the clock reading taken at the grant and \<open>n - 10\<close>: \<open>n - 10\<close> rounded
  to a float, added to the reading, the sum rounded; where neither step rounds, that is
  the reading plus \<open>n - 10\<close>. When \<open>n - 10\<close> is beyond that range the grant raises
  \<^verbatim>\<open>OverflowError\<close> and leaves the expiry as it was. A search made while the client holds a
  token (a value Python takes as true) and the clock reads strictly less than the expiry
  keeps the client as it is and starts with the catalog request under that token; every
  request it makes is a GET, so none is a grant. A search made with no token, or when the
  clock reads the expiry or more, makes the grant request first and no other grant; when
  the grant succeeds the catalog request follows it, under the new token.
\<close>

theorem token_reuse_and_refresh:
  "(send w \<lparr>req_method = POST, req_url = GRANTURL, req_auth = grant_headers self\<rparr> = (Inr resp, w1)
      \<and> status resp = 200
      \<and> subscript (body resp) ''access_token'' = Inr tok
      \<and> subscript (body resp) ''expires_in'' = Inr (JNum n)
      \<and> \<bar>n - 10\<bar> < 2 ^ 1024 - 2 ^ 970
    \<longrightarrow> get_bearer_token self w
         = (Inr (),
            self\<lparr>bearer_token := tok,
                 expiry := fround w1 (clock w1 (ticks w1) + fround w1 (of_int (n - 10)))\<rparr>,
            w1\<lparr>ticks := Suc (ticks w1)\<rparr>))
   \<and> (send w \<lparr>req_method = POST, req_url = GRANTURL, req_auth = grant_headers self\<rparr> = (Inr resp, w1)
      \<and> status resp = 200
      \<and> subscript (body resp) ''access_token'' = Inr tok
      \<and> subscript (body resp) ''expires_in'' = Inr (JNum n)
      \<and> \<bar>n - 10\<bar> < 2 ^ 1024 - 2 ^ 970
      \<and> fround w1 (of_int (n - 10)) = of_int (n - 10)
      \<and> fround w1 (clock w1 (ticks w1) + of_int (n - 10)) = clock w1 (ticks w1) + of_int (n - 10)
    \<longrightarrow> expiry (fst (snd (get_bearer_token self w))) = clock w1 (ticks w1) + (of_int n - 10))
   \<and> (send w \<lparr>req_method = POST, req_url = GRANTURL, req_auth = grant_headers self\<rparr> = (Inr resp, w1)
      \<and> status resp = 200
      \<and> subscript (body resp) ''access_token'' = Inr tok
      \<and> subscript (body resp) ''expires_in'' = Inr (JNum n)
      \<and> \<bar>n - 10\<bar> \<ge> 2 ^ 1024 - 2 ^ 970
    \<longrightarrow> get_bearer_token self w
         = (Inl OverflowError, self\<lparr>bearer_token := tok\<rparr>, w1\<lparr>ticks := Suc (ticks w1)\<rparr>))
   \<and> (truthy (bearer_token self) \<and> clock w (ticks w) < expiry self
    \<longrightarrow> (\<exists>ms. log (snd (snd (search_client self query ty it w)))
            = log w @ \<lparr>req_method = GET, req_url = search_url query ty,
                        req_auth = Bearer (bearer_token self)\<rparr> # ms
          \<and> (\<forall>rq \<in> set ms. req_method rq = GET))
       \<and> fst (snd (search_client self query ty it w)) = self)
   \<and> (\<not> truthy (bearer_token self) \<or> expiry self \<le> clock w (ticks w)
    \<longrightarrow> (\<exists>ms. log (snd (snd (search_client self query ty it w)))
            = log w @ \<lparr>req_method = POST, req_url = GRANTURL, req_auth = grant_headers self\<rparr> # ms
          \<and> (\<forall>rq \<in> set ms. req_method rq = GET)
          \<and> (\<forall>u self1 w1. ensure_token self w = (Inr u, self1, w1) \<longrightarrow>
                (\<exists>ms'. ms = \<lparr>req_method = GET, req_url = search_url query ty,
                               req_auth = bearer_headers self1\<rparr> # ms'))))"
proof (intro conjI impI)
  assume "send w \<lparr>req_method = POST, req_url = GRANTURL, req_auth = grant_headers self\<rparr> = (Inr resp, w1)
      \<and> status resp = 200
      \<and> subscript (body resp) ''access_token'' = Inr tok
      \<and> subscript (body resp) ''expires_in'' = Inr (JNum n)
      \<and> \<bar>n - 10\<bar> < 2 ^ 1024 - 2 ^ 970"
  then show "get_bearer_token self w
         = (Inr (),
            self\<lparr>bearer_token := tok,
                 expiry := fround w1 (clock w1 (ticks w1) + fround w1 (of_int (n - 10)))\<rparr>,
            w1\<lparr>ticks := Suc (ticks w1)\<rparr>)"
    using get_bearer_token_ok by blast
next
  assume a: "send w \<lparr>req_method = POST, req_url = GRANTURL, req_auth = grant_headers self\<rparr> = (Inr resp, w1)
      \<and> status resp = 200
      \<and> subscript (body resp) ''access_token'' = Inr tok
      \<and> subscript (body resp) ''expires_in'' = Inr (JNum n)
      \<and> \<bar>n - 10\<bar> < 2 ^ 1024 - 2 ^ 970
      \<and> fround w1 (of_int (n - 10)) = of_int (n - 10)
      \<and> fround w1 (clock w1 (ticks w1) + of_int (n - 10)) = clock w1 (ticks w1) + of_int (n - 10)"
  then have "get_bearer_token self w
         = (Inr (),
            self\<lparr>bearer_token := tok,
                 expiry := fround w1 (clock w1 (ticks w1) + fround w1 (of_int (n - 10)))\<rparr>,
            w1\<lparr>ticks := Suc (ticks w1)\<rparr>)"
    using get_bearer_token_ok by blast
  with a show "expiry (fst (snd (get_bearer_token self w))) = clock w1 (ticks w1) + (of_int n - 10)"
    by simp
next
  assume "send w \<lparr>req_method = POST, req_url = GRANTURL, req_auth = grant_headers self\<rparr> = (Inr resp, w1)
      \<and> status resp = 200
      \<and> subscript (body resp) ''access_token'' = Inr tok
      \<and> subscript (body resp) ''expires_in'' = Inr (JNum n)
      \<and> \<bar>n - 10\<bar> \<ge> 2 ^ 1024 - 2 ^ 970"
  then show "get_bearer_token self w
         = (Inl OverflowError, self\<lparr>bearer_token := tok\<rparr>, w1\<lparr>ticks := Suc (ticks w1)\<rparr>)"
    using get_bearer_token_overflow by blast
next
  assume a: "truthy (bearer_token self) \<and> clock w (ticks w) < expiry self"
  from a search_cached[of self w query ty it]
  show "\<exists>ms. log (snd (snd (search_client self query ty it w)))
            = log w @ \<lparr>req_method = GET, req_url = search_url query ty,
                        req_auth = Bearer (bearer_token self)\<rparr> # ms
          \<and> (\<forall>rq \<in> set ms. req_method rq = GET)"
    by blast
  from a search_cached[of self w query ty it]
  show "fst (snd (search_client self query ty it w)) = self" by blast
next
  assume "\<not> truthy (bearer_token self) \<or> expiry self \<le> clock w (ticks w)"
  then show "\<exists>ms. log (snd (snd (search_client self query ty it w)))
            = log w @ \<lparr>req_method = POST, req_url = GRANTURL, req_auth = grant_headers self\<rparr> # ms
          \<and> (\<forall>rq \<in> set ms. req_method rq = GET)
          \<and> (\<forall>u self1 w1. ensure_token self w = (Inr u, self1, w1) \<longrightarrow>
                (\<exists>ms'. ms = \<lparr>req_method = GET, req_url = search_url query ty,
                               req_auth = bearer_headers self1\<rparr> # ms'))"
    by (rule search_refresh)
qed

lemma grants_gets: "\<forall>rq \<in> set ms. req_method rq = GET \<Longrightarrow> grants ms = []"
  by (induction ms) (auto simp: grants_def)

lemma grants_Nil: "grants [] = []"
  by (simp add: grants_def)

lemma grants_get: "grants (\<lparr>req_method = GET, req_url = u, req_auth = a\<rparr> # ms) = grants ms"
  by (simp add: grants_def)

lemma grants_post:
  "grants (\<lparr>req_method = POST, req_url = u, req_auth = a\<rparr> # ms)
   = \<lparr>req_method = POST, req_url = u, req_auth = a\<rparr> # grants ms"
  by (simp add: grants_def)

theorem token_reuse_and_refresh_witness:
  "get_bearer_token (SpotifyClient_init ''id'' ''secret'') (sample_world [sample_grant])
     = (Inr (),
        \<lparr>client_id = ''id'', client_secret = ''secret'', bearer_token = JStr ''tok'',
          expiry = 1000 + (3600 - 10)\<rparr>,
        \<lparr>script = [], log = [\<lparr>req_method = POST, req_url = GRANTURL,
                                req_auth = Basic ''id'' ''secret''\<rparr>],
          clock = (\<lambda>n. 1000 + real n), ticks = 1, fround = (\<lambda>x. x)\<rparr>)
   \<and> expiry (fst (snd (get_bearer_token (SpotifyClient_init ''id'' ''secret'')
                        (sample_world [sample_grant])))) = 1000 + (3600 - 10)
   \<and> get_bearer_token (SpotifyClient_init ''id'' ''secret'') (sample_world [huge_grant])
     = (Inl OverflowError,
        \<lparr>client_id = ''id'', client_secret = ''secret'', bearer_token = JStr ''tok'', expiry = 0\<rparr>,
        \<lparr>script = [], log = [\<lparr>req_method = POST, req_url = GRANTURL,
                                req_auth = Basic ''id'' ''secret''\<rparr>],
          clock = (\<lambda>n. 1000 + real n), ticks = 1, fround = (\<lambda>x. x)\<rparr>)
   \<and> grants (log (snd (snd (search_client sample_client ''abc'' track False (sample_world [])))))
       = []
   \<and> fst (snd (search_client sample_client ''abc'' track False (sample_world []))) = sample_client
   \<and> grants (log (snd (snd (search_client stale_client ''abc'' track False
                                 (sample_world [sample_grant])))))
       = [\<lparr>req_method = POST, req_url = GRANTURL, req_auth = Basic ''id'' ''secret''\<rparr>]
   \<and> grants (log (snd (snd (search_client (SpotifyClient_init ''id'' ''secret'') ''abc'' track False
                                 (sample_world [sample_grant])))))
       = [\<lparr>req_method = POST, req_url = GRANTURL, req_auth = Basic ''id'' ''secret''\<rparr>]"
proof -
  let ?c0 = "SpotifyClient_init ''id'' ''secret''"
  let ?w1 = "\<lparr>script = [], log = [\<lparr>req_method = POST, req_url = GRANTURL,
                 req_auth = grant_headers ?c0\<rparr>], clock = (\<lambda>n. 1000 + real n), ticks = 0,
                 fround = (\<lambda>x. x)\<rparr>"
  have ha: "send (sample_world [sample_grant])
              \<lparr>req_method = POST, req_url = GRANTURL, req_auth = grant_headers ?c0\<rparr>
              = (Inr sample_grant, ?w1)
      \<and> status sample_grant = 200
      \<and> subscript (body sample_grant) ''access_token'' = Inr (JStr ''tok'')
      \<and> subscript (body sample_grant) ''expires_in'' = Inr (JNum 3600)
      \<and> \<bar>3600 - 10\<bar> < (2::int) ^ 1024 - 2 ^ 970"
    by (simp add: send_def sample_world_def sample_grant_def ok_response_def)
  have hx: "send (sample_world [sample_grant])
              \<lparr>req_method = POST, req_url = GRANTURL, req_auth = grant_headers ?c0\<rparr>
              = (Inr sample_grant, ?w1)
      \<and> status sample_grant = 200
      \<and> subscript (body sample_grant) ''access_token'' = Inr (JStr ''tok'')
      \<and> subscript (body sample_grant) ''expires_in'' = Inr (JNum 3600)
      \<and> \<bar>3600 - 10\<bar> < (2::int) ^ 1024 - 2 ^ 970
      \<and> fround ?w1 (of_int (3600 - 10)) = of_int (3600 - 10)
      \<and> fround ?w1 (clock ?w1 (ticks ?w1) + of_int (3600 - 10))
          = clock ?w1 (ticks ?w1) + of_int (3600 - 10)"
    using ha by simp
  have ho: "send (sample_world [huge_grant])
              \<lparr>req_method = POST, req_url = GRANTURL, req_auth = grant_headers ?c0\<rparr>
              = (Inr huge_grant, ?w1)
      \<and> status huge_grant = 200
      \<and> subscript (body huge_grant) ''access_token'' = Inr (JStr ''tok'')
      \<and> subscript (body huge_grant) ''expires_in'' = Inr (JNum (10 ^ 400))
      \<and> \<bar>10 ^ 400 - 10\<bar> \<ge> (2::int) ^ 1024 - 2 ^ 970"
    by (simp add: send_def sample_world_def huge_grant_def ok_response_def)
  note a = token_reuse_and_refresh [of "sample_world [sample_grant]" ?c0 sample_grant ?w1
      "JStr ''tok''" 3600, THEN conjunct1, THEN mp, OF ha]
  note ex = token_reuse_and_refresh [of "sample_world [sample_grant]" ?c0 sample_grant ?w1
      "JStr ''tok''" 3600, THEN conjunct2, THEN conjunct1, THEN mp, OF hx]
  note ov = token_reuse_and_refresh [of "sample_world [huge_grant]" ?c0 huge_grant ?w1
      "JStr ''tok''" "10 ^ 400", THEN conjunct2, THEN conjunct2, THEN conjunct1, THEN mp, OF ho]
  have 1: "get_bearer_token ?c0 (sample_world [sample_grant])
     = (Inr (),
        \<lparr>client_id = ''id'', client_secret = ''secret'', bearer_token = JStr ''tok'',
          expiry = 1000 + (3600 - 10)\<rparr>,
        \<lparr>script = [], log = [\<lparr>req_method = POST, req_url = GRANTURL,
                                req_auth = Basic ''id'' ''secret''\<rparr>],
          clock = (\<lambda>n. 1000 + real n), ticks = 1, fround = (\<lambda>x. x)\<rparr>)"
    using a by (simp add: SpotifyClient_init_def grant_headers_def)
  have 2: "expiry (fst (snd (get_bearer_token ?c0 (sample_world [sample_grant])))) = 1000 + (3600 - 10)"
    using ex by simp
  have ov2: "get_bearer_token ?c0 (sample_world [huge_grant])
     = (Inl OverflowError,
        \<lparr>client_id = ''id'', client_secret = ''secret'', bearer_token = JStr ''tok'', expiry = 0\<rparr>,
        \<lparr>script = [], log = [\<lparr>req_method = POST, req_url = GRANTURL,
                                req_auth = Basic ''id'' ''secret''\<rparr>],
          clock = (\<lambda>n. 1000 + real n), ticks = 1, fround = (\<lambda>x. x)\<rparr>)"
    using ov by (simp add: SpotifyClient_init_def grant_headers_def)
  have hb: "truthy (bearer_token sample_client)
      \<and> clock (sample_world []) (ticks (sample_world [])) < expiry sample_client"
    by (simp add: sample_client_def sample_world_def)
  note b = token_reuse_and_refresh [where self = sample_client and w = "sample_world []"
      and query = "''abc''" and ty = track and it = False,
      THEN conjunct2, THEN conjunct2, THEN conjunct2, THEN conjunct1, THEN mp, OF hb]
  have 3: "grants (log (snd (snd (search_client sample_client ''abc'' track False (sample_world []))))) = []"
    using b [THEN conjunct1] by (auto simp: sample_world_def grants_get grants_gets)
  note 4 = b [THEN conjunct2]
  have hc: "\<not> truthy (bearer_token stale_client)
      \<or> expiry stale_client \<le> clock (sample_world [sample_grant]) (ticks (sample_world [sample_grant]))"
    by (simp add: stale_client_def sample_world_def)
  note c = token_reuse_and_refresh [where self = stale_client and w = "sample_world [sample_grant]"
      and query = "''abc''" and ty = track and it = False,
      THEN conjunct2, THEN conjunct2, THEN conjunct2, THEN conjunct2, THEN mp, OF hc]
  have 5: "grants (log (snd (snd (search_client stale_client ''abc'' track False
                                 (sample_world [sample_grant])))))
       = [\<lparr>req_method = POST, req_url = GRANTURL, req_auth = Basic ''id'' ''secret''\<rparr>]"
    using c by (auto simp: sample_world_def grants_post grants_gets grant_headers_def stale_client_def)
  have hd: "\<not> truthy (bearer_token ?c0)
      \<or> expiry ?c0 \<le> clock (sample_world [sample_grant]) (ticks (sample_world [sample_grant]))"
    by (simp add: SpotifyClient_init_def)
  note d = token_reuse_and_refresh [where self = ?c0 and w = "sample_world [sample_grant]"
      and query = "''abc''" and ty = track and it = False,
      THEN conjunct2, THEN conjunct2, THEN conjunct2, THEN conjunct2, THEN mp, OF hd]
  have 6: "grants (log (snd (snd (search_client ?c0 ''abc'' track False
                                 (sample_world [sample_grant])))))
       = [\<lparr>req_method = POST, req_url = GRANTURL, req_auth = Basic ''id'' ''secret''\<rparr>]"
    using d by (auto simp: sample_world_def grants_post grants_gets grant_headers_def
        SpotifyClient_init_def)
  show ?thesis by (intro conjI) (rule 1 2 ov2 3 4 5 6)+
qed

section \<open>Request errors\<close>


lemma request_error_Inl [simp]: "request_error (Inl e) = is_request_error e"
  by (simp add: request_error_def)




























end
